theory Spec2Isabelle
  imports Complex_Main "HOL-Library.Sublist" "HOL-Library.Char_ord" "HOL-Library.Multiset"
begin

section \<open>JavaScript values and strings\<close>

text \<open>
  A profile is a row of the \<^verbatim>\<open>members\<close> table: every field the scorer reads is a
  \<^verbatim>\<open>TEXT\<close> column, so its value is a string or \<^verbatim>\<open>null\<close>; a property that an
  object does not have reads \<^verbatim>\<open>undefined\<close>. Strict equality \<^verbatim>\<open>===\<close> on such values is
  equality of \<open>jsstr\<close>: \<^verbatim>\<open>null === undefined\<close> is false and
  \<^verbatim>\<open>undefined === undefined\<close> is true.
\<close>

datatype jsstr = Undefined | Null | Str string

text \<open>Truthiness: only a non-empty string is truthy.\<close>

fun truthy :: "jsstr \<Rightarrow> bool" where
  "truthy (Str s) = (s \<noteq> [])"
| "truthy _ = False"

text \<open>\<^verbatim>\<open>v || d\<close> for a string default \<open>d\<close>.\<close>

fun orElse :: "jsstr \<Rightarrow> string \<Rightarrow> string" where
  "orElse (Str s) d = (if s = [] then d else s)"
| "orElse _ d = d"

text \<open>The text a template literal \<^verbatim>\<open>${v}\<close> and \<^verbatim>\<open>String(v)\<close> produce.\<close>

fun render :: "jsstr \<Rightarrow> string" where
  "render Undefined = ''undefined''"
| "render Null = ''null''"
| "render (Str s) = s"

text \<open>
  Strings are lists of 8-bit characters; \<^verbatim>\<open>toLowerCase\<close> maps the letters A to Z and
  leaves every other character alone (the case mapping of characters beyond ASCII is not
  modelled).
\<close>

definition lowerChar :: "char \<Rightarrow> char" where
  "lowerChar c =
     (if CHR ''A'' \<le> c \<and> c \<le> CHR ''Z'' then char_of (of_char c + (32::nat)) else c)"

definition toLowerCase :: "string \<Rightarrow> string" where
  "toLowerCase s = map lowerChar s"

text \<open>\<^verbatim>\<open>s.includes(t)\<close>: \<open>t\<close> occurs in \<open>s\<close> as a contiguous run.\<close>

definition includesStr :: "string \<Rightarrow> string \<Rightarrow> bool" where
  "includesStr s t = sublist t s"

text \<open>White space (\<^verbatim>\<open>\\s\<close>, and what \<^verbatim>\<open>trim\<close> strips) among 8-bit characters:
  tab, line feed, vertical tab, form feed, carriage return, space, no-break space.\<close>

definition isSpace :: "char \<Rightarrow> bool" where
  "isSpace c = (c \<in> set [CHR 0x09, CHR 0x0A, CHR 0x0B, CHR 0x0C, CHR 0x0D, CHR 0x20, CHR 0xA0])"

definition isDigit :: "char \<Rightarrow> bool" where
  "isDigit c = (CHR ''0'' \<le> c \<and> c \<le> CHR ''9'')"

definition trim :: "string \<Rightarrow> string" where
  "trim s = rev (dropWhile isSpace (rev (dropWhile isSpace s)))"

text \<open>\<^verbatim>\<open>s.split(sep)\<close> for a one-character separator: \<^verbatim>\<open>"".split(",")\<close> is
  \<^verbatim>\<open>[""]\<close>, and adjacent separators give empty pieces.\<close>

fun splitStr :: "char \<Rightarrow> string \<Rightarrow> string list" where
  "splitStr sep [] = [[]]"
| "splitStr sep (c # cs) =
     (if c = sep then [] # splitStr sep cs
      else (case splitStr sep cs of [] \<Rightarrow> [[c]] | w # ws \<Rightarrow> (c # w) # ws))"

text \<open>\<^verbatim>\<open>s.split(/\\s+/)\<close>: pieces between maximal runs of white space (a leading or
  trailing run leaves an empty piece).\<close>

function splitSpaces :: "string \<Rightarrow> string list" where
  "splitSpaces [] = [[]]"
| "splitSpaces (c # cs) =
     (if isSpace c then [] # splitSpaces (dropWhile isSpace cs)
      else (case splitSpaces cs of [] \<Rightarrow> [[c]] | w # ws \<Rightarrow> (c # w) # ws))"
  by pat_completeness auto
termination
  by (relation "measure length") (auto simp: le_imp_less_Suc length_dropWhile_le)

text \<open>
  A regular expression that is an alternation of literal words with the \<^verbatim>\<open>i\<close> flag,
  such as \<^verbatim>\<open>/customer|client|lead/i\<close>, is the list of its (lower-case) words;
  \<^verbatim>\<open>test\<close> succeeds when one of them occurs in the string, letter case ignored.
\<close>

definition regexTest :: "string list \<Rightarrow> string \<Rightarrow> bool" where
  "regexTest alternatives s = list_ex (includesStr (toLowerCase s)) alternatives"

section \<open>JavaScript numbers\<close>

text \<open>
  A number is an IEEE 754 double: \<^verbatim>\<open>NaN\<close>, one of the two infinities, or a finite value,
  here the real it denotes. The two zeros are the one value \<open>Fin 0\<close>: the code compares
  zeros with \<^verbatim>\<open>===\<close>, which does not tell them apart, and divides only by products of
  square roots and by positive constants, never by a negative zero.

  \<open>toDouble\<close> rounds a real to the nearest double, ties to the even significand: the
  exponent of \<open>x\<close> is that of its binade, at least -1022 (below it the doubles are
  subnormal), a unit in the last place is 52 binary places below it, and a result of
  magnitude \<open>2 ^ 1024\<close> or more is an infinity.
\<close>

datatype jsnum = NaN | PosInf | NegInf | Fin real

definition exponentOf :: "real \<Rightarrow> int" where
  "exponentOf x = max \<lfloor>log 2 \<bar>x\<bar>\<rfloor> (- 1022)"

definition ulpOf :: "real \<Rightarrow> real" where
  "ulpOf x = 2 powr real_of_int (exponentOf x - 52)"

definition roundHalfEven :: "real \<Rightarrow> int" where
  "roundHalfEven y =
     (let f = \<lfloor>y\<rfloor>
      in if y - real_of_int f < 1 / 2 then f
         else if 1 / 2 < y - real_of_int f then f + 1
         else if even f then f else f + 1)"

definition toDouble :: "real \<Rightarrow> jsnum" where
  "toDouble x =
     (if x = 0 then Fin 0
      else (let r = real_of_int (roundHalfEven (x / ulpOf x)) * ulpOf x
            in if 2 ^ 1024 \<le> \<bar>r\<bar> then (if 0 < x then PosInf else NegInf) else Fin r))"

text \<open>The sign of a number that is not \<^verbatim>\<open>NaN\<close>: -1, 0 or 1.\<close>

fun signOf :: "jsnum \<Rightarrow> real" where
  "signOf NaN = 0"
| "signOf PosInf = 1"
| "signOf NegInf = - 1"
| "signOf (Fin x) = sgn x"

definition infinityOf :: "real \<Rightarrow> jsnum" where
  "infinityOf s = (if s = 0 then NaN else if 0 < s then PosInf else NegInf)"

text \<open>The operators \<^verbatim>\<open>+\<close>, \<^verbatim>\<open>*\<close> and \<^verbatim>\<open>/\<close> on numbers, and \<^verbatim>\<open>Math.sqrt\<close>: the exact
  result rounded to a double, with the rules of IEEE 754 for \<^verbatim>\<open>NaN\<close> and the infinities.\<close>

fun fadd :: "jsnum \<Rightarrow> jsnum \<Rightarrow> jsnum" where
  "fadd (Fin x) (Fin y) = toDouble (x + y)"
| "fadd NaN b = NaN"
| "fadd a NaN = NaN"
| "fadd PosInf NegInf = NaN"
| "fadd NegInf PosInf = NaN"
| "fadd PosInf b = PosInf"
| "fadd NegInf b = NegInf"
| "fadd (Fin x) b = b"

fun fmul :: "jsnum \<Rightarrow> jsnum \<Rightarrow> jsnum" where
  "fmul (Fin x) (Fin y) = toDouble (x * y)"
| "fmul NaN b = NaN"
| "fmul a NaN = NaN"
| "fmul a b = infinityOf (signOf a * signOf b)"

fun fdiv :: "jsnum \<Rightarrow> jsnum \<Rightarrow> jsnum" where
  "fdiv (Fin x) (Fin y) = (if y = 0 then infinityOf (sgn x) else toDouble (x / y))"
| "fdiv NaN b = NaN"
| "fdiv a NaN = NaN"
| "fdiv (Fin x) b = Fin 0"
| "fdiv a (Fin y) = infinityOf (signOf a * (if y < 0 then - 1 else 1))"
| "fdiv a b = NaN"

fun fsqrt :: "jsnum \<Rightarrow> jsnum" where
  "fsqrt (Fin x) = (if x < 0 then NaN else toDouble (sqrt x))"
| "fsqrt PosInf = PosInf"
| "fsqrt a = NaN"

text \<open>\<^verbatim>\<open>Math.round\<close>: the nearest integer, a half rounding up; \<^verbatim>\<open>Math.min\<close>; and the
  comparisons \<^verbatim>\<open>>\<close> and \<^verbatim>\<open>>=\<close>, which are false when an operand is \<^verbatim>\<open>NaN\<close>.\<close>

fun mathRound :: "jsnum \<Rightarrow> jsnum" where
  "mathRound (Fin x) = Fin (real_of_int \<lfloor>x + 1 / 2\<rfloor>)"
| "mathRound a = a"

fun numGt :: "jsnum \<Rightarrow> jsnum \<Rightarrow> bool" where
  "numGt (Fin x) (Fin y) = (y < x)"
| "numGt NaN b = False"
| "numGt a NaN = False"
| "numGt PosInf b = (b \<noteq> PosInf)"
| "numGt a NegInf = (a \<noteq> NegInf)"
| "numGt a b = False"

definition numGe :: "jsnum \<Rightarrow> jsnum \<Rightarrow> bool" where
  "numGe a b = (a \<noteq> NaN \<and> b \<noteq> NaN \<and> (a = b \<or> numGt a b))"

definition mathMin :: "jsnum \<Rightarrow> jsnum \<Rightarrow> jsnum" where
  "mathMin a b = (if a = NaN \<or> b = NaN then NaN else if numGt a b then b else a)"

text \<open>A number lies in a closed interval of reals: it is finite and between the bounds.\<close>

fun numBetween :: "real \<Rightarrow> real \<Rightarrow> jsnum \<Rightarrow> bool" where
  "numBetween lo hi (Fin x) = (lo \<le> x \<and> x \<le> hi)"
| "numBetween lo hi a = False"

section \<open>Semantic compatibility matcher\<close>

text \<open>The \<^verbatim>\<open>keywords\<close> table of \<^verbatim>\<open>matchesNeedAsset\<close>, in the order of the object literal.\<close>

definition keywordTable :: "(string \<times> string list) list" where
  "keywordTable =
   [(''marketing'', [''seo'', ''social media'', ''content'', ''brand'', ''advertising'', ''promotion'',
                     ''digital marketing'', ''pr'', ''public relations'', ''campaign'']),
    (''seo'', [''marketing'', ''digital marketing'', ''google'', ''search'', ''content'', ''web'']),
    (''social media'', [''marketing'', ''content creation'', ''brand'', ''instagram'', ''facebook'',
                        ''linkedin'', ''tiktok'']),
    (''branding'', [''marketing'', ''design'', ''logo'', ''identity'', ''brand strategy'']),
    (''content'', [''marketing'', ''writing'', ''blog'', ''social media'', ''video'', ''copywriting'']),
    (''sales'', [''lead generation'', ''business development'', ''revenue'', ''customers'', ''pipeline'']),
    (''lead generation'', [''sales'', ''marketing'', ''outreach'', ''prospecting'', ''demand generation'']),
    (''business development'', [''sales'', ''partnerships'', ''growth'', ''revenue'', ''clients'']),
    (''tech'', [''technology'', ''software'', ''development'', ''engineering'', ''it'', ''technical'']),
    (''software'', [''tech'', ''development'', ''app'', ''platform'', ''saas'', ''coding'']),
    (''web development'', [''tech'', ''software'', ''website'', ''coding'', ''programming'', ''web design'']),
    (''app development'', [''tech'', ''software'', ''mobile'', ''coding'']),
    (''automation'', [''tech'', ''software'', ''efficiency'', ''tools'', ''systems'']),
    (''finance'', [''accounting'', ''bookkeeping'', ''cfo'', ''financial planning'', ''capital'']),
    (''funding'', [''capital'', ''investment'', ''money'', ''financing'', ''fundraising'']),
    (''investment'', [''capital'', ''funding'', ''money'', ''financing'', ''venture'']),
    (''operations'', [''management'', ''efficiency'', ''process'', ''logistics'', ''systems'']),
    (''logistics'', [''operations'', ''supply chain'', ''shipping'', ''delivery'', ''distribution'']),
    (''hiring'', [''talent'', ''recruitment'', ''hr'', ''staffing'', ''team building'']),
    (''talent'', [''hiring'', ''recruitment'', ''team'', ''employees'', ''hr'']),
    (''strategy'', [''planning'', ''consulting'', ''advisory'', ''business strategy'', ''growth strategy'']),
    (''consulting'', [''advisory'', ''strategy'', ''expertise'', ''guidance'']),
    (''partnerships'', [''collaboration'', ''alliances'', ''business development'', ''joint venture''])]"

text \<open>The \<^verbatim>\<open>needPatterns\<close> table: pairs of a need expression and an asset expression.\<close>

definition needPatterns :: "(string list \<times> string list) list" where
  "needPatterns =
   [([''customer'', ''client'', ''lead''], [''sales'', ''marketing'', ''business development'', ''crm'']),
    ([''revenue'', ''money'', ''profit''], [''sales'', ''marketing'', ''finance'', ''pricing'', ''monetization'']),
    ([''website'', ''web'', ''online''], [''web'', ''development'', ''design'', ''digital'', ''tech'']),
    ([''brand'', ''awareness'', ''visibility''], [''marketing'', ''pr'', ''social'', ''media'', ''branding'']),
    ([''scale'', ''growth'', ''expand''], [''strategy'', ''consulting'', ''automation'', ''systems'', ''operations'']),
    ([''team'', ''hire'', ''talent''], [''hr'', ''recruitment'', ''staffing'', ''hiring'']),
    ([''legal'', ''contract'', ''compliance''], [''law'', ''attorney'', ''legal'']),
    ([''capital'', ''funding'', ''money''], [''investment'', ''finance'', ''funding'', ''capital''])]"

text \<open>The three rules of \<^verbatim>\<open>matchesNeedAsset\<close>, in the order the function tries them.\<close>

definition directMatch :: "string \<Rightarrow> string \<Rightarrow> bool" where
  "directMatch need asset = (includesStr asset need \<or> includesStr need asset)"

definition inCluster :: "string \<Rightarrow> string \<times> string list \<Rightarrow> bool" where
  "inCluster phrase entry =
     (case entry of (key, synonyms) \<Rightarrow>
        includesStr phrase key \<or> list_ex (\<lambda>syn. includesStr phrase syn) synonyms)"

definition clusterMatch :: "string \<Rightarrow> string \<Rightarrow> bool" where
  "clusterMatch need asset =
     (let needLower = toLowerCase need; assetLower = toLowerCase asset
      in list_ex (\<lambda>entry. inCluster needLower entry \<and> inCluster assetLower entry) keywordTable)"

definition patternMatch :: "string \<Rightarrow> string \<Rightarrow> bool" where
  "patternMatch need asset =
     list_ex (\<lambda>pattern. regexTest (fst pattern) need \<and> regexTest (snd pattern) asset) needPatterns"

definition matchesNeedAsset :: "string \<Rightarrow> string \<Rightarrow> bool" where
  "matchesNeedAsset need asset =
     (if directMatch need asset then True
      else if clusterMatch need asset then True
      else patternMatch need asset)"

section \<open>Vector similarity\<close>

text \<open>
  \<^verbatim>\<open>cosineSimilarity(vec1, vec2)\<close> of the server. A vector argument is either absent
  (\<^verbatim>\<open>null\<close>/\<^verbatim>\<open>undefined\<close>, here \<open>None\<close>) or an array of numbers. The \<^verbatim>\<open>for\<close> loop is
  the recursion \<open>cosineLoop\<close> over both arrays, carrying \<^verbatim>\<open>dotProduct\<close>, \<^verbatim>\<open>norm1\<close> and
  \<^verbatim>\<open>norm2\<close>; every operation is the one on doubles.
\<close>

fun cosineLoop ::
  "jsnum list \<Rightarrow> jsnum list \<Rightarrow> jsnum \<times> jsnum \<times> jsnum \<Rightarrow> jsnum \<times> jsnum \<times> jsnum" where
  "cosineLoop (x # xs) (y # ys) (dotProduct, norm1, norm2) =
     cosineLoop xs ys (fadd dotProduct (fmul x y), fadd norm1 (fmul x x), fadd norm2 (fmul y y))"
| "cosineLoop _ _ acc = acc"

definition cosineSimilarity :: "jsnum list option \<Rightarrow> jsnum list option \<Rightarrow> jsnum" where
  "cosineSimilarity vec1 vec2 =
     (case vec1 of
        None \<Rightarrow> Fin 0
      | Some v1 \<Rightarrow>
         (case vec2 of
            None \<Rightarrow> Fin 0
          | Some v2 \<Rightarrow>
             if length v1 \<noteq> length v2 then Fin 0
             else (case cosineLoop v1 v2 (Fin 0, Fin 0, Fin 0) of
                     (dotProduct, norm1, norm2) \<Rightarrow>
                       if norm1 = Fin 0 \<or> norm2 = Fin 0 then Fin 0
                       else fdiv dotProduct (fmul (fsqrt norm1) (fsqrt norm2)))))"

text \<open>The squared norm of a vector as the loop computes it: the squares added up from
  the left, in doubles.\<close>

definition squaredNorm :: "jsnum list \<Rightarrow> jsnum" where
  "squaredNorm v = foldl (\<lambda>norm x. fadd norm (fmul x x)) (Fin 0) v"

text \<open>The dot product of two vectors as the loop computes it.\<close>

definition dotProduct :: "jsnum list \<Rightarrow> jsnum list \<Rightarrow> jsnum" where
  "dotProduct v1 v2 = foldl (\<lambda>dot (x, y). fadd dot (fmul x y)) (Fin 0) (zip v1 v2)"

section \<open>Composite scorer\<close>

text \<open>
  The fields of an attendee profile that the scorer, the ranker and the fallback read.
\<close>

record member =
  member_id :: jsstr
  name :: jsstr
  org :: jsstr
  role :: jsstr
  industry :: jsstr
  city :: jsstr
  rev_driver :: jsstr
  current_constraint :: jsstr
  assets :: jsstr
  needs :: jsstr
  fun_fact :: jsstr
  consent :: bool

text \<open>
  The collaboration-research object, as far as it decides points: the array
  \<^verbatim>\<open>creative_collaboration_ideas\<close> (absent, or an array of ideas) and the
  \<^verbatim>\<open>value_rating\<close> text (absent, \<^verbatim>\<open>null\<close> or a string), typed as the prompt of the
  research call asks for them. Its other keys only add display lines to the category.
\<close>

record research =
  creative_collaboration_ideas :: "string list option"
  value_rating :: jsstr

text \<open>
  A category of the breakdown with its label, its points and its maximum. The display
  attributes of a category (description, status, percentage, reasoning, insights,
  details) and the list \<^verbatim>\<open>matches\<close> of the result are texts computed beside the points
  and never read back; they are left out.
\<close>

record category =
  factor :: string
  points :: jsnum
  maxPoints :: int

record summary =
  earned :: jsnum
  possible :: int
  percentage :: jsnum
  grade :: string

record match_score =
  score :: jsnum
  breakdown :: "category list"
  fullBreakdown :: "category list"
  summary :: summary

text \<open>
  The counters and the points of every category but the semantic one are small integers,
  which doubles hold exactly; they are computed as integers and enter the breakdown and
  the total through \<open>intNum\<close>. (A count of matches too large for a double is capped at
  20 by \<^verbatim>\<open>Math.min\<close> either way.)
\<close>

definition intNum :: "int \<Rightarrow> jsnum" where
  "intNum k = Fin (real_of_int k)"

definition universalPoints :: int where
  "universalPoints = 30"

definition maxSemanticPoints :: int where
  "maxSemanticPoints = 20"

definition semanticPoints :: "jsnum \<Rightarrow> jsnum" where
  "semanticPoints similarity = mathRound (fmul similarity (intNum maxSemanticPoints))"

text \<open>\<^verbatim>\<open>field ? field.split(',').map(x => x.trim().toLowerCase()) : []\<close>\<close>

definition parseList :: "jsstr \<Rightarrow> string list" where
  "parseList field =
     (if truthy field then map (\<lambda>x. toLowerCase (trim x)) (splitStr CHR '','' (render field))
      else [])"

text \<open>The two nested loops over assets and needs, and the loop of a constraint over
  assets; each counts the hits of \<^verbatim>\<open>matchesNeedAsset\<close>.\<close>

definition countMatches :: "string list \<Rightarrow> string list \<Rightarrow> int" where
  "countMatches assetList needList =
     int (length (filter (\<lambda>(asset, need). matchesNeedAsset need asset)
                         (List.product assetList needList)))"

definition countConstraintMatches :: "string \<Rightarrow> string list \<Rightarrow> int" where
  "countConstraintMatches constraintLower assetList =
     (if constraintLower \<noteq> []
      then int (length (filter (\<lambda>asset. matchesNeedAsset constraintLower asset) assetList))
      else 0)"

definition complementaryMatches :: "'a member_scheme \<Rightarrow> 'b member_scheme \<Rightarrow> int" where
  "complementaryMatches member1 member2 =
     (let member1Needs = parseList (needs member1);
          member1Assets = parseList (assets member1);
          member2Needs = parseList (needs member2);
          member2Assets = parseList (assets member2);
          constraint1Lower = toLowerCase (orElse (current_constraint member1) []);
          constraint2Lower = toLowerCase (orElse (current_constraint member2) [])
      in countMatches member1Assets member2Needs
         + countMatches member2Assets member1Needs
         + countConstraintMatches constraint2Lower member1Assets
         + countConstraintMatches constraint1Lower member2Assets)"

definition maxComplementaryPoints :: int where
  "maxComplementaryPoints = 20"

text \<open>The points the research object sets: first by the number of creative ideas, then
  by the rating.\<close>

definition researchPoints :: "research \<Rightarrow> int \<Rightarrow> int" where
  "researchPoints r complementaryPoints =
     (let creativeIdeasCount =
            (case creative_collaboration_ideas r of None \<Rightarrow> 0 | Some ideas \<Rightarrow> length ideas);
          valueRating = toLowerCase (orElse (value_rating r) []);
          afterIdeas =
            (if creativeIdeasCount \<ge> 4 then max complementaryPoints 16
             else if creativeIdeasCount \<ge> 2 then max complementaryPoints 12
             else if creativeIdeasCount \<ge> 1 then max complementaryPoints 8
             else complementaryPoints)
      in if valueRating = ''high'' then max afterIdeas 14
         else if valueRating = ''medium'' then max afterIdeas 9
         else if valueRating = ''low'' \<and> creativeIdeasCount = 0 then max afterIdeas 4
         else afterIdeas)"

definition complementaryPoints :: "'a member_scheme \<Rightarrow> 'b member_scheme \<Rightarrow> research option \<Rightarrow> int" where
  "complementaryPoints member1 member2 complementaryValueResearch =
     (let keywordPoints = min (complementaryMatches member1 member2 * 4) maxComplementaryPoints
      in case complementaryValueResearch of
           None \<Rightarrow> keywordPoints
         | Some r \<Rightarrow> researchPoints r keywordPoints)"

text \<open>Market alignment. The expression
  \<^verbatim>\<open>/\$\d+[mk]|\d+ year|million|billion|national|awarded/i\<close> is matched by
  \<open>isEstablished\<close>: a dollar sign, digits and then m or k; or a digit followed by
  \<^verbatim>\<open>" year"\<close>; or one of the four words.\<close>

fun dollarAmount :: "string \<Rightarrow> bool" where
  "dollarAmount [] = False"
| "dollarAmount (c # cs) =
     ((c = CHR ''$'' \<and> cs \<noteq> [] \<and> isDigit (hd cs)
        \<and> (case dropWhile isDigit cs of [] \<Rightarrow> False | e # _ \<Rightarrow> e = CHR ''m'' \<or> e = CHR ''k''))
      \<or> dollarAmount cs)"

fun digitsYear :: "string \<Rightarrow> bool" where
  "digitsYear [] = False"
| "digitsYear (c # cs) = ((isDigit c \<and> prefix '' year'' cs) \<or> digitsYear cs)"

definition isEstablished :: "string \<Rightarrow> bool" where
  "isEstablished funfact =
     (let s = toLowerCase funfact
      in dollarAmount s \<or> digitsYear s
         \<or> regexTest [''million'', ''billion'', ''national'', ''awarded''] s)"

definition isB2B :: "string \<Rightarrow> bool" where
  "isB2B revenue = (includesStr revenue ''b2b'' \<or> includesStr revenue ''enterprise'' \<or> includesStr revenue ''saas''
                \<or> includesStr revenue ''consulting'' \<or> includesStr revenue ''agency'')"

definition isB2C :: "string \<Rightarrow> bool" where
  "isB2C revenue = (includesStr revenue ''retail'' \<or> includesStr revenue ''consumer''
                \<or> includesStr revenue ''ecommerce'' \<or> includesStr revenue ''subscription'')"

definition isFounder :: "string \<Rightarrow> bool" where
  "isFounder r = (includesStr r ''founder'' \<or> includesStr r ''ceo'' \<or> includesStr r ''owner'')"

definition maxMarketPoints :: int where
  "maxMarketPoints = 15"

definition marketPoints :: "'a member_scheme \<Rightarrow> 'b member_scheme \<Rightarrow> int" where
  "marketPoints member1 member2 =
     (let rev1 = toLowerCase (orElse (rev_driver member1) []);
          rev2 = toLowerCase (orElse (rev_driver member2) []);
          isB2B1 = isB2B rev1; isB2B2 = isB2B rev2;
          isB2C1 = isB2C rev1; isB2C2 = isB2C rev2;
          modelPoints =
            (if (isB2B1 \<and> isB2B2) \<or> (isB2C1 \<and> isB2C2) then 5
             else if (isB2B1 \<and> isB2C2) \<or> (isB2C1 \<and> isB2B2) then 3
             else 0);
          role1 = toLowerCase (orElse (role member1) []);
          role2 = toLowerCase (orElse (role member2) []);
          funfact1 = toLowerCase (orElse (fun_fact member1) []);
          funfact2 = toLowerCase (orElse (fun_fact member2) []);
          isFounder1 = isFounder role1; isFounder2 = isFounder role2;
          isEstablished1 = isEstablished funfact1; isEstablished2 = isEstablished funfact2;
          founderPoints = (if isFounder1 \<and> isFounder2 then 5 else 0);
          establishedPoints =
            (if isEstablished1 \<and> isEstablished2 then 3
             else if (isEstablished1 \<and> \<not> isEstablished2) \<or> (\<not> isEstablished1 \<and> isEstablished2) then 2
             else 0);
          constraintPoints =
            (if truthy (current_constraint member1) \<and> truthy (current_constraint member2) then 2
             else 0)
      in min (modelPoints + founderPoints + establishedPoints + constraintPoints) maxMarketPoints)"

definition maxLocationPoints :: int where
  "maxLocationPoints = 5"

definition locationPoints :: "'a member_scheme \<Rightarrow> 'b member_scheme \<Rightarrow> int" where
  "locationPoints member1 member2 =
     (let city1 = trim (toLowerCase (orElse (city member1) []));
          city2 = trim (toLowerCase (orElse (city member2) []))
      in if city1 \<noteq> [] \<and> city2 \<noteq> [] then (if city1 = city2 then 5 else 2) else 2)"

text \<open>The table \<^verbatim>\<open>crossIndustrySynergies\<close>, looked up by the key
  \<^verbatim>\<open>`${ind1}-${ind2}`\<close>.\<close>

definition crossIndustrySynergies :: "(string \<times> string) list" where
  "crossIndustrySynergies =
   [(''technology-marketing'', ''Tech can build tools marketing needs; Marketing can bring tech to market''),
    (''technology-finance'', ''Tech provides fintech innovation; Finance provides investment capital''),
    (''technology-real estate'', ''Tech enables PropTech solutions; Real estate provides distribution channels''),
    (''marketing-real estate'', ''Marketing drives property visibility; Real estate provides case studies''),
    (''marketing-finance'', ''Marketing drives client acquisition; Finance provides campaign capital''),
    (''marketing-food & hospitality'', ''Marketing fills seats/tables; F&B provides authentic brand stories''),
    (''technology-food & hospitality'', ''Tech streamlines operations/ordering; F&B provides user testing ground''),
    (''real estate-legal'', ''Real estate needs legal for transactions; Legal needs real estate clients''),
    (''finance-legal'', ''Finance needs legal for compliance; Legal needs finance for M&A deals''),
    (''online education-marketing'', ''Education needs student acquisition; Marketing needs training content''),
    (''consulting-*'', ''Consulting can analyze ANY business; Every business can provide consulting case studies'')]"

definition hasSynergy :: "string \<Rightarrow> bool" where
  "hasSynergy key = (case map_of crossIndustrySynergies key of None \<Rightarrow> False | Some text \<Rightarrow> text \<noteq> [])"

definition industryPoints :: "string \<Rightarrow> string \<Rightarrow> int" where
  "industryPoints ind1 ind2 =
     (if ind1 \<noteq> [] \<and> ind2 \<noteq> [] \<and> ind1 \<noteq> ind2 then
        (let pair1 = toLowerCase (ind1 @ ''-'' @ ind2);
             pair2 = toLowerCase (ind2 @ ''-'' @ ind1);
             wildcard1 = toLowerCase (ind1 @ ''-*'');
             wildcard2 = toLowerCase (ind2 @ ''-*'')
         in if hasSynergy pair1 then 6
            else if hasSynergy pair2 then 6
            else if hasSynergy wildcard1 then 4
            else if hasSynergy wildcard2 then 4
            else 2)
      else if ind1 \<noteq> [] \<and> ind2 \<noteq> [] \<and> ind1 = ind2 then 4
      else 0)"

text \<open>A constraint of one party against the assets of the other: a word of the
  constraint longer than three characters that occurs in an asset.\<close>

definition solutionPoints :: "jsstr \<Rightarrow> string \<Rightarrow> string list \<Rightarrow> int" where
  "solutionPoints current constraintLower assetList =
     (if truthy current \<and> length assetList > 0 then
        (let constraintWords = splitSpaces constraintLower;
             assetMatches =
               filter (\<lambda>asset. list_ex (\<lambda>word. length word > 3 \<and> includesStr asset word)
                                        constraintWords) assetList
         in if length assetMatches > 0 then 3 else 0)
      else 0)"

definition maxStrategyPoints :: int where
  "maxStrategyPoints = 10"

definition strategyPoints :: "'a member_scheme \<Rightarrow> 'b member_scheme \<Rightarrow> int" where
  "strategyPoints member1 member2 =
     (let ind1 = toLowerCase (orElse (industry member1) []);
          ind2 = toLowerCase (orElse (industry member2) []);
          member1Assets = parseList (assets member1);
          member2Assets = parseList (assets member2);
          constraint1Lower = toLowerCase (orElse (current_constraint member1) []);
          constraint2Lower = toLowerCase (orElse (current_constraint member2) [])
      in min (industryPoints ind1 ind2
              + solutionPoints (current_constraint member1) constraint1Lower member2Assets
              + solutionPoints (current_constraint member2) constraint2Lower member1Assets)
             maxStrategyPoints)"

definition gradeOf :: "jsnum \<Rightarrow> string" where
  "gradeOf overallPercentage =
     (if numGe overallPercentage (Fin 85) then ''A+''
      else if numGe overallPercentage (Fin 75) then ''A''
      else if numGe overallPercentage (Fin 65) then ''B+''
      else if numGe overallPercentage (Fin 55) then ''B''
      else ''C+'')"

text \<open>
  \<^verbatim>\<open>calculateMatchScore(member1, member2, similarity, complementaryValueResearch)\<close>:
  the self-pair guard on \<^verbatim>\<open>member_id\<close>, then the six categories pushed in order while
  \<^verbatim>\<open>totalScore\<close>, which starts at 0, accumulates with \<^verbatim>\<open>+=\<close>, then
  \<^verbatim>\<open>Math.min(totalScore, 100)\<close> and the percentage
  \<^verbatim>\<open>Math.round((normalizedScore / 100) * 100)\<close>. The research argument defaults to
  \<^verbatim>\<open>null\<close> (\<open>None\<close>).
\<close>

definition calculateMatchScore ::
  "'a member_scheme \<Rightarrow> 'b member_scheme \<Rightarrow> jsnum \<Rightarrow> research option \<Rightarrow> match_score" where
  "calculateMatchScore member1 member2 similarity complementaryValueResearch =
     (if member_id member1 = member_id member2 then
        \<lparr>score = Fin 0, breakdown = [], fullBreakdown = [],
         summary = \<lparr>earned = Fin 0, possible = 100, percentage = Fin 0, grade = ''N/A''\<rparr>\<rparr>
      else
        (let universalCategory =
               \<lparr>factor = ''Universal Business Potential'', points = intNum universalPoints,
                maxPoints = 30\<rparr>;
             totalScore = fadd (Fin 0) (points universalCategory);
             semanticCategory =
               \<lparr>factor = ''Semantic Profile Similarity'', points = semanticPoints similarity,
                maxPoints = maxSemanticPoints\<rparr>;
             totalScore = fadd totalScore (points semanticCategory);
             complementaryCategory =
               \<lparr>factor = ''Complementary Value Exchange'',
                points = intNum (complementaryPoints member1 member2 complementaryValueResearch),
                maxPoints = maxComplementaryPoints\<rparr>;
             totalScore = fadd totalScore (points complementaryCategory);
             marketCategory =
               \<lparr>factor = ''Market Alignment'', points = intNum (marketPoints member1 member2),
                maxPoints = maxMarketPoints\<rparr>;
             totalScore = fadd totalScore (points marketCategory);
             locationCategory =
               \<lparr>factor = ''Geographic & Logistical Synergy'',
                points = intNum (locationPoints member1 member2), maxPoints = maxLocationPoints\<rparr>;
             totalScore = fadd totalScore (points locationCategory);
             strategyCategory =
               \<lparr>factor = ''Strategic Growth Opportunities'',
                points = intNum (strategyPoints member1 member2), maxPoints = maxStrategyPoints\<rparr>;
             totalScore = fadd totalScore (points strategyCategory);
             categories = [universalCategory, semanticCategory, complementaryCategory,
                           marketCategory, locationCategory, strategyCategory];
             maxPossiblePoints = 100;
             normalizedScore = mathMin totalScore (intNum maxPossiblePoints);
             overallPercentage =
               mathRound (fmul (fdiv normalizedScore (intNum maxPossiblePoints)) (Fin 100))
         in \<lparr>score = normalizedScore, breakdown = categories, fullBreakdown = categories,
             summary = \<lparr>earned = normalizedScore, possible = maxPossiblePoints,
                        percentage = overallPercentage, grade = gradeOf overallPercentage\<rparr>\<rparr>))"

text \<open>The points of a breakdown added up from the left, in doubles, and the points of the
  category with a given label (0 when the breakdown has no such category).\<close>

definition categorySum :: "category list \<Rightarrow> jsnum" where
  "categorySum cs = foldl fadd (Fin 0) (map points cs)"

definition categoryPoints :: "string \<Rightarrow> category list \<Rightarrow> jsnum" where
  "categoryPoints label cs =
     (case find (\<lambda>c. factor c = label) cs of None \<Rightarrow> Fin 0 | Some c \<Rightarrow> points c)"

text \<open>The sparsest profile: an identifier and no other text.\<close>

definition blankProfile :: "jsstr \<Rightarrow> member" where
  "blankProfile ident =
     \<lparr>member_id = ident, name = Null, org = Null, role = Null, industry = Null, city = Null,
      rev_driver = Null, current_constraint = Null, assets = Null, needs = Null,
      fun_fact = Null, consent = True\<rparr>"

section \<open>Candidate ranker\<close>

text \<open>
  A candidate is a profile row joined with its stored vector text \<^verbatim>\<open>embedding_ops\<close>.
  \<^verbatim>\<open>JSON.parse\<close> is a parameter of the model: on the text of a stored vector it throws
  (\<open>Inl\<close>, with the message) or returns a value, which is given as
  \<^verbatim>\<open>cosineSimilarity\<close> reads it: \<open>None\<close> for \<^verbatim>\<open>null\<close> and for any value without a
  length, for which the function returns 0; otherwise the numbers that the elements
  convert to in the products (\<^verbatim>\<open>NaN\<close> for an element such as \<^verbatim>\<open>"a"\<close>, an infinity
  for a literal such as \<^verbatim>\<open>1e309\<close>).
\<close>

datatype error = Error string

record candidate = member +
  embedding_ops :: jsstr

text \<open>
  An element of \<^verbatim>\<open>scored\<close>: the object \<^verbatim>\<open>{...candidate, score, breakdown, ...}\<close> holds
  the candidate row, the score data, the similarity and, in the \<^verbatim>\<open>catch\<close> branch, the
  message of the error. A line of the console is the \<^verbatim>\<open>console.error\<close> of that branch:
  the number \<^verbatim>\<open>idx + 1\<close>, the name of the candidate and the message.
\<close>

record scored =
  cand :: candidate
  scoreData :: match_score
  similarity :: jsnum
  error_message :: "string option"





section \<open>Rationale generation and its fallback\<close>

record rationale =
  rationale_ops :: string
  creative_angle :: string
  intro_basis :: string

text \<open>\<^verbatim>\<open>field ? field.split(',').map(x => x.trim()) : []\<close>\<close>

definition parseListTrim :: "jsstr \<Rightarrow> string list" where
  "parseListTrim field =
     (if truthy field then map trim (splitStr CHR '','' (render field)) else [])"

text \<open>The pairs of a need and an asset, need in the outer loop, that contain one another
  when letter case is ignored.\<close>

definition containingPairs :: "string list \<Rightarrow> string list \<Rightarrow> (string \<times> string) list" where
  "containingPairs needList assetList =
     filter (\<lambda>(need, asset). includesStr (toLowerCase asset) (toLowerCase need)
                              \<or> includesStr (toLowerCase need) (toLowerCase asset))
            (List.product needList assetList)"

definition generateSimpleRationale :: "'a member_scheme \<Rightarrow> 'b member_scheme \<Rightarrow> rationale" where
  "generateSimpleRationale member1 member2 =
     (let needs1 = parseListTrim (needs member1);
          assets2 = parseListTrim (assets member2);
          needs2 = parseListTrim (needs member2);
          assets1 = parseListTrim (assets member1);
          matches =
            map (\<lambda>(need, asset). render (name member2) @ '''s '' @ asset
                                   @ '' can help with your need for '' @ need)
                (containingPairs needs1 assets2)
            @ map (\<lambda>(need, asset). ''Your '' @ asset @ '' can help '' @ render (name member2)
                                     @ '''s need for '' @ need)
                  (containingPairs needs2 assets1)
      in \<lparr>rationale_ops =
            (case matches of
               first # _ \<Rightarrow> first
             | [] \<Rightarrow> ''Both in '' @ orElse (industry member1) ''business'' @ '' and ''
                     @ orElse (industry member2) ''business'' @ '', potential for collaboration''),
          creative_angle =
            (if truthy (fun_fact member1) \<and> truthy (fun_fact member2)
             then ''Connect over shared interests''
             else ''Explore synergies between '' @ render (org member1) @ '' and ''
                  @ render (org member2)),
          intro_basis =
            ''Start by discussing '' @ orElse (current_constraint member1) ''current challenges''
            @ '' and how '' @ render (org member2) @ '''s expertise might help''\<rparr>)"

text \<open>
  The text-generation capability is external. Each of its calls is a parameter of the
  model giving the outcome of the call: \<open>Inl\<close> when the request fails, times out or
  returns text that \<^verbatim>\<open>JSON.parse\<close> rejects, \<open>Inr\<close> with the parsed answer otherwise.
  The synthesis call builds its prompt from the two earlier answers, so its outcome is a
  function of them. The answer of the synthesis carries the three keys the function
  validates.
\<close>

record synthesis =
  answer_rationale_ops :: jsstr
  answer_creative_angle :: jsstr
  answer_intro_basis :: jsstr

text \<open>
  \<^verbatim>\<open>generateMatchRationale(member1, member2, complementaryValueResearch)\<close>: industry
  research, company research, the construction of the synthesis prompt, the synthesis
  call and the check of the required keys, all inside one \<^verbatim>\<open>try\<close>; the \<^verbatim>\<open>catch\<close>
  returns \<^verbatim>\<open>generateSimpleRationale(member1, member2)\<close>. The prompt reads
  \<^verbatim>\<open>complementaryValueResearch.value_rating\<close>, which throws when the research object is
  absent (\<open>None\<close>), after the first two calls and before the third.
\<close>

definition generateMatchRationale ::
  "error + 'i \<Rightarrow> error + 'c \<Rightarrow> ('i \<Rightarrow> 'c \<Rightarrow> error + synthesis)
     \<Rightarrow> 'a member_scheme \<Rightarrow> 'b member_scheme \<Rightarrow> research option \<Rightarrow> rationale" where
  "generateMatchRationale researchIndustryContext researchCompaniesAndPeople synthesize
       member1 member2 complementaryValueResearch =
     (case researchIndustryContext of
        Inl e \<Rightarrow> generateSimpleRationale member1 member2
      | Inr industryResearch \<Rightarrow>
          (case researchCompaniesAndPeople of
             Inl e \<Rightarrow> generateSimpleRationale member1 member2
           | Inr companyResearch \<Rightarrow>
               (case complementaryValueResearch of
                  None \<Rightarrow> generateSimpleRationale member1 member2
                | Some found \<Rightarrow>
                    (case synthesize industryResearch companyResearch of
                       Inl e \<Rightarrow> generateSimpleRationale member1 member2
                     | Inr result \<Rightarrow>
                         if \<not> truthy (answer_rationale_ops result)
                            \<or> \<not> truthy (answer_creative_angle result)
                            \<or> \<not> truthy (answer_intro_basis result)
                         then generateSimpleRationale member1 member2
                         else \<lparr>rationale_ops = render (answer_rationale_ops result),
                               creative_angle = render (answer_creative_angle result),
                               intro_basis = render (answer_intro_basis result)\<rparr>))))"

text \<open>
  The row of \<^verbatim>\<open>intros\<close> that a generation handler writes for one match, and the body
  of the loop of each handler. The top-three handler has done its collaboration research
  before: the match carries the research object, or none when that call failed (a
  failure there keeps the candidate). The brainstorm handler calls the research inside
  the \<^verbatim>\<open>try\<close> of the loop body, whose \<^verbatim>\<open>catch\<close> writes nothing.
\<close>

record intro =
  for_member_id :: jsstr
  to_member_id :: jsstr
  tier :: string
  intro_score :: jsnum
  intro_rationale_ops :: string
  intro_creative_angle :: string
  intro_intro_basis :: string




section \<open>Sample inputs\<close>



text \<open>A vector of one finite double whose square overflows, and one whose square
  underflows to zero.\<close>

definition hugeVector :: "jsnum list" where
  "hugeVector = [Fin (2 ^ 520)]"

definition tinyVector :: "jsnum list" where
  "tinyVector = [Fin (1 / 2 ^ 600)]"



section \<open>Properties of the numbers\<close>

lemma roundHalfEven_int: "roundHalfEven (real_of_int m) = m"
  by (simp add: roundHalfEven_def)

lemma roundHalfEven_near: "\<bar>real_of_int (roundHalfEven y) - y\<bar> \<le> 1 / 2"
  unfolding roundHalfEven_def Let_def by (auto simp: abs_le_iff)

lemma roundHalfEven_ge: "real_of_int n \<le> y \<Longrightarrow> n \<le> roundHalfEven y"
proof -
  assume "real_of_int n \<le> y"
  then have "n \<le> \<lfloor>y\<rfloor>" by (simp add: le_floor_iff)
  then show ?thesis unfolding roundHalfEven_def Let_def by auto
qed

lemma ulpOf_pos: "0 < ulpOf x"
  by (simp add: ulpOf_def)

lemma pow2_floor_log_le:
  assumes "x \<noteq> 0"
  shows "2 powr real_of_int \<lfloor>log 2 \<bar>x\<bar>\<rfloor> \<le> \<bar>x\<bar>"
proof -
  have pos: "0 < \<bar>x\<bar>" using assms by simp
  have "real_of_int \<lfloor>log 2 \<bar>x\<bar>\<rfloor> \<le> log 2 \<bar>x\<bar>" by simp
  then have "2 powr real_of_int \<lfloor>log 2 \<bar>x\<bar>\<rfloor> \<le> 2 powr log 2 \<bar>x\<bar>"
    by (rule powr_mono) simp
  also have "\<dots> = \<bar>x\<bar>" using pos by simp
  finally show ?thesis .
qed

lemma rounded_near:
  "\<bar>real_of_int (roundHalfEven (x / ulpOf x)) * ulpOf x - x\<bar> \<le> ulpOf x / 2"
proof -
  have u: "0 < ulpOf x" by (rule ulpOf_pos)
  have "real_of_int (roundHalfEven (x / ulpOf x)) * ulpOf x - x
          = (real_of_int (roundHalfEven (x / ulpOf x)) - x / ulpOf x) * ulpOf x"
    using u by (simp add: algebra_simps)
  then have "\<bar>real_of_int (roundHalfEven (x / ulpOf x)) * ulpOf x - x\<bar>
          = \<bar>real_of_int (roundHalfEven (x / ulpOf x)) - x / ulpOf x\<bar> * ulpOf x"
    using u by (simp add: abs_mult)
  also have "\<dots> \<le> (1 / 2) * ulpOf x"
    using roundHalfEven_near [of "x / ulpOf x"] u by (intro mult_right_mono) simp_all
  finally show ?thesis by simp
qed

lemma floor_log_bounds:
  assumes "x \<noteq> 0" and "2 powr real_of_int a \<le> \<bar>x\<bar>" and "\<bar>x\<bar> < 2 powr real_of_int b"
  shows "a \<le> \<lfloor>log 2 \<bar>x\<bar>\<rfloor>" and "\<lfloor>log 2 \<bar>x\<bar>\<rfloor> < b"
proof -
  have pos: "0 < \<bar>x\<bar>" using assms(1) by simp
  have "real_of_int a \<le> log 2 \<bar>x\<bar>"
    using assms(2) pos by (simp add: le_log_iff)
  then show "a \<le> \<lfloor>log 2 \<bar>x\<bar>\<rfloor>" by (simp add: le_floor_iff)
  have "log 2 \<bar>x\<bar> < real_of_int b"
    using assms(3) pos by (simp add: log_less_iff)
  then show "\<lfloor>log 2 \<bar>x\<bar>\<rfloor> < b" by (simp add: floor_less_iff)
qed

lemma toDouble_int:
  assumes "\<bar>k\<bar> < 2 ^ 53"
  shows "toDouble (real_of_int k) = Fin (real_of_int k)"
proof (cases "k = 0")
  case True
  then show ?thesis by (simp add: toDouble_def)
next
  case False
  let ?x = "real_of_int k"
  have x0: "?x \<noteq> 0" using False by simp
  have lo: "2 powr real_of_int 0 \<le> \<bar>?x\<bar>"
  proof -
    have "1 \<le> \<bar>k\<bar>" using False by simp
    then have "1 \<le> \<bar>?x\<bar>" by linarith
    then show ?thesis by simp
  qed
  have hi: "\<bar>?x\<bar> < 2 powr real_of_int 53"
  proof -
    have "real_of_int \<bar>k\<bar> < real_of_int (2 ^ 53)" using assms by (simp only: of_int_less_iff)
    then have "\<bar>?x\<bar> < 2 ^ 53" by simp
    also have "(2::real) ^ 53 = 2 powr real_of_int 53" by (simp add: powr_realpow [symmetric])
    finally show ?thesis .
  qed
  define e where "e = \<lfloor>log 2 \<bar>?x\<bar>\<rfloor>"
  have e: "0 \<le> e" "e < 53"
    using floor_log_bounds [OF x0 lo hi] by (simp_all add: e_def)
  define n where "n = nat (52 - e)"
  have expo: "exponentOf ?x - 52 = - int n"
    using e by (simp add: exponentOf_def e_def [symmetric] n_def)
  have ulp: "ulpOf ?x = 1 / 2 ^ n"
    unfolding ulpOf_def expo by (simp add: powr_minus powr_realpow inverse_eq_divide)
  have quot: "?x / ulpOf ?x = real_of_int (k * 2 ^ n)"
    by (simp add: ulp)
  have r: "real_of_int (roundHalfEven (?x / ulpOf ?x)) * ulpOf ?x = ?x"
    unfolding quot roundHalfEven_int by (simp add: ulp)
  have "\<bar>?x\<bar> < 2 ^ 1024"
  proof -
    have "\<bar>?x\<bar> < 2 ^ 53" using hi by (simp add: powr_realpow [symmetric])
    also have "(2::real) ^ 53 \<le> 2 ^ 1024" by (rule power_increasing) simp_all
    finally show ?thesis .
  qed
  then show ?thesis
    using x0 by (simp add: toDouble_def Let_def r del: of_int_eq_0_iff)
qed

lemma toDouble_overflow:
  assumes "2 ^ 1024 \<le> x"
  shows "toDouble x = PosInf"
proof -
  have xpos: "0 < x" using assms by (rule less_le_trans [rotated]) simp
  then have x0: "x \<noteq> 0" by simp
  define e where "e = \<lfloor>log 2 \<bar>x\<bar>\<rfloor>"
  have lo: "2 powr real_of_int 1024 \<le> \<bar>x\<bar>"
    using assms xpos by (simp add: powr_realpow [symmetric])
  have e: "1024 \<le> e"
  proof -
    have "real_of_int 1024 \<le> log 2 \<bar>x\<bar>"
      using lo xpos by (simp add: le_log_iff)
    then show ?thesis unfolding e_def by (simp add: le_floor_iff)
  qed
  have expo: "exponentOf x = e" using e by (simp add: exponentOf_def e_def)
  have ulp: "ulpOf x = 2 powr real_of_int e / 2 ^ 52"
    unfolding ulpOf_def expo by (simp add: powr_diff powr_realpow [symmetric])
  have u: "0 < ulpOf x" by (rule ulpOf_pos)
  have "2 powr real_of_int e \<le> x"
    using pow2_floor_log_le [OF x0] xpos by (simp add: e_def)
  then have "real_of_int (2 ^ 52) \<le> x / ulpOf x"
    by (simp add: ulp field_simps)
  then have "2 ^ 52 \<le> roundHalfEven (x / ulpOf x)" by (rule roundHalfEven_ge)
  then have "real_of_int (2 ^ 52) \<le> real_of_int (roundHalfEven (x / ulpOf x))"
    by (simp only: of_int_le_iff)
  then have "real_of_int (2 ^ 52) * ulpOf x \<le> real_of_int (roundHalfEven (x / ulpOf x)) * ulpOf x"
    using u by (intro mult_right_mono) simp_all
  moreover have "real_of_int (2 ^ 52) * ulpOf x = 2 powr real_of_int e" by (simp add: ulp)
  moreover have "(2::real) ^ 1024 \<le> 2 powr real_of_int e"
  proof -
    have "2 powr real_of_int 1024 \<le> (2::real) powr real_of_int e"
      using e by (intro powr_mono) simp_all
    then show ?thesis by (simp add: powr_realpow [symmetric])
  qed
  ultimately have big: "2 ^ 1024 \<le> real_of_int (roundHalfEven (x / ulpOf x)) * ulpOf x" by linarith
  then have "2 ^ 1024 \<le> \<bar>real_of_int (roundHalfEven (x / ulpOf x)) * ulpOf x\<bar>" by linarith
  then show ?thesis using xpos x0 by (simp add: toDouble_def Let_def)
qed

lemma toDouble_relative:
  assumes lo: "1 / 2 ^ 1022 \<le> \<bar>x\<bar>" and hi: "\<bar>x\<bar> \<le> 2 ^ 1023"
  shows "\<exists>r. toDouble x = Fin r \<and> \<bar>r - x\<bar> \<le> \<bar>x\<bar> / 2 ^ 53"
proof -
  have xpos: "0 < \<bar>x\<bar>" using lo by (rule less_le_trans [rotated]) simp
  then have x0: "x \<noteq> 0" by simp
  define e where "e = \<lfloor>log 2 \<bar>x\<bar>\<rfloor>"
  have "2 powr real_of_int (- 1022) \<le> \<bar>x\<bar>"
    using lo by (simp add: powr_minus powr_realpow [symmetric] inverse_eq_divide)
  then have "real_of_int (- 1022) \<le> log 2 \<bar>x\<bar>"
    using xpos by (simp add: le_log_iff)
  then have e: "- 1022 \<le> e" unfolding e_def by (simp add: le_floor_iff)
  have expo: "exponentOf x = e" using e by (simp add: exponentOf_def e_def)
  have ulp: "ulpOf x = 2 powr real_of_int e / 2 ^ 52"
    unfolding ulpOf_def expo by (simp add: powr_diff powr_realpow [symmetric])
  have "2 powr real_of_int e \<le> \<bar>x\<bar>"
    using pow2_floor_log_le [OF x0] by (simp add: e_def)
  then have ule: "ulpOf x \<le> \<bar>x\<bar> / 2 ^ 52"
    by (simp add: ulp divide_right_mono)
  define r where "r = real_of_int (roundHalfEven (x / ulpOf x)) * ulpOf x"
  have "\<bar>r - x\<bar> \<le> ulpOf x / 2" unfolding r_def by (rule rounded_near)
  also have "\<dots> \<le> (\<bar>x\<bar> / 2 ^ 52) / 2" using ule by simp
  also have "\<dots> = \<bar>x\<bar> / 2 ^ 53" by simp
  finally have near: "\<bar>r - x\<bar> \<le> \<bar>x\<bar> / 2 ^ 53" .
  have "\<bar>r\<bar> \<le> \<bar>x\<bar> + \<bar>r - x\<bar>" by simp
  also have "\<dots> \<le> \<bar>x\<bar> + \<bar>x\<bar> / 2 ^ 53" using near by simp
  also have "\<dots> \<le> 2 ^ 1023 + 2 ^ 1023 / 2 ^ 53"
    using hi by (intro add_mono divide_right_mono) simp_all
  also have "\<dots> < (2::real) ^ 1024" by simp
  finally have "\<not> 2 ^ 1024 \<le> \<bar>r\<bar>" by simp
  then have "toDouble x = Fin r"
    using x0 by (simp add: toDouble_def Let_def r_def)
  with near show ?thesis by blast
qed

lemma toDouble_small:
  assumes "\<bar>x\<bar> \<le> 32"
  shows "\<exists>r. toDouble x = Fin r \<and> \<bar>r - x\<bar> \<le> 1 / 4"
proof (cases "x = 0")
  case True
  then show ?thesis by (simp add: toDouble_def)
next
  case x0: False
  define e where "e = \<lfloor>log 2 \<bar>x\<bar>\<rfloor>"
  have "\<bar>x\<bar> < 2 powr real_of_int 6" using assms by (simp add: powr_realpow [symmetric])
  then have "log 2 \<bar>x\<bar> < real_of_int 6" using x0 by (simp add: log_less_iff)
  then have "e < 6" unfolding e_def by (simp add: floor_less_iff)
  then have "exponentOf x - 52 \<le> - 1" by (simp add: exponentOf_def e_def [symmetric])
  then have "ulpOf x \<le> 2 powr real_of_int (- 1)"
    unfolding ulpOf_def by (intro powr_mono) simp_all
  then have ule: "ulpOf x \<le> 1 / 2" by (simp add: powr_minus)
  define r where "r = real_of_int (roundHalfEven (x / ulpOf x)) * ulpOf x"
  have "\<bar>r - x\<bar> \<le> ulpOf x / 2" unfolding r_def by (rule rounded_near)
  with ule have near: "\<bar>r - x\<bar> \<le> 1 / 4" by simp
  have "\<bar>r\<bar> \<le> \<bar>x\<bar> + \<bar>r - x\<bar>" by simp
  also have "\<dots> \<le> 33" using near assms by simp
  also have "\<dots> < (2::real) ^ 1024" by simp
  finally have "\<not> 2 ^ 1024 \<le> \<bar>r\<bar>" by simp
  then have "toDouble x = Fin r"
    using x0 by (simp add: toDouble_def Let_def r_def)
  with near show ?thesis by blast
qed

lemma toDouble_underflow:
  assumes "\<bar>x\<bar> < 1 / 2 ^ 1075"
  shows "toDouble x = Fin 0"
proof (cases "x = 0")
  case True
  then show ?thesis by (simp add: toDouble_def)
next
  case x0: False
  have "\<bar>x\<bar> < 2 powr real_of_int (- 1022)"
  proof -
    have "(1::real) / 2 ^ 1075 \<le> 1 / 2 ^ 1022" by (simp add: field_simps)
    with assms have "\<bar>x\<bar> < 1 / 2 ^ 1022" by linarith
    then show ?thesis by (simp add: powr_minus powr_realpow [symmetric] inverse_eq_divide)
  qed
  then have "log 2 \<bar>x\<bar> < real_of_int (- 1022)" using x0 by (simp add: log_less_iff)
  then have "\<lfloor>log 2 \<bar>x\<bar>\<rfloor> < - 1022" by (simp add: floor_less_iff)
  then have expo: "exponentOf x = - 1022" by (simp add: exponentOf_def)
  have ulp: "ulpOf x = 1 / 2 ^ 1074"
    unfolding ulpOf_def expo by (simp add: powr_minus powr_realpow [symmetric] inverse_eq_divide)
  define y where "y = x / ulpOf x"
  have "\<bar>y\<bar> < 1 / 2"
    unfolding y_def using assms by (simp add: ulp abs_mult field_simps)
  then have "- (1 / 2) < y" "y < 1 / 2" by linarith+
  then have "roundHalfEven y = 0"
  proof (cases "0 \<le> y")
    case True
    assume "y < 1 / 2"
    with True have "\<lfloor>y\<rfloor> = 0" by (simp add: floor_eq_iff)
    then show ?thesis using \<open>y < 1 / 2\<close> by (simp add: roundHalfEven_def)
  next
    case False
    assume "- (1 / 2) < y"
    with False have "\<lfloor>y\<rfloor> = - 1" by (simp add: floor_eq_iff)
    then show ?thesis using \<open>- (1 / 2) < y\<close> by (simp add: roundHalfEven_def)
  qed
  then have "roundHalfEven (x / ulpOf x) = 0" by (simp add: y_def)
  then show ?thesis using x0 by (simp add: toDouble_def Let_def)
qed

lemma fadd_NaN_right: "fadd a NaN = NaN"
  by (cases a) simp_all

lemma fadd_intNum:
  "\<bar>a + b\<bar> < 2 ^ 53 \<Longrightarrow> fadd (intNum a) (intNum b) = intNum (a + b)"
  using toDouble_int [of "a + b"] by (simp add: intNum_def)

lemma mathMin_intNum: "mathMin (intNum a) (intNum b) = intNum (min a b)"
  by (simp add: mathMin_def intNum_def min_def)


section \<open>Properties of the vector similarity\<close>

lemma cosineLoop_folds:
  "length xs = length ys \<Longrightarrow>
   cosineLoop xs ys (d, a, b) =
     (foldl (\<lambda>dot (x, y). fadd dot (fmul x y)) d (zip xs ys),
      foldl (\<lambda>norm x. fadd norm (fmul x x)) a xs,
      foldl (\<lambda>norm x. fadd norm (fmul x x)) b ys)"
  by (induction xs ys arbitrary: d a b rule: list_induct2) simp_all

lemma cosineSimilarity_Some:
  "length v1 = length v2 \<Longrightarrow>
   cosineSimilarity (Some v1) (Some v2) =
     (if squaredNorm v1 = Fin 0 \<or> squaredNorm v2 = Fin 0 then Fin 0
      else fdiv (dotProduct v1 v2) (fmul (fsqrt (squaredNorm v1)) (fsqrt (squaredNorm v2))))"
  by (simp add: cosineSimilarity_def cosineLoop_folds squaredNorm_def dotProduct_def)

lemma cosineSimilarity_zero_norm:
  "squaredNorm v1 = Fin 0 \<or> squaredNorm v2 = Fin 0 \<Longrightarrow>
   cosineSimilarity (Some v1) (Some v2) = Fin 0"
proof (cases "length v1 = length v2")
  case True
  assume "squaredNorm v1 = Fin 0 \<or> squaredNorm v2 = Fin 0"
  with True show ?thesis by (simp add: cosineSimilarity_Some)
next
  case False
  then show ?thesis by (simp add: cosineSimilarity_def)
qed

lemma toDouble_zero: "toDouble 0 = Fin 0"
  by (simp add: toDouble_def)

lemma foldl_zero_squares:
  "\<forall>x\<in>set v. x = Fin 0 \<Longrightarrow> foldl (\<lambda>norm x. fadd norm (fmul x x)) (Fin 0) v = Fin 0"
  by (induction v) (simp_all add: toDouble_zero)

lemma squaredNorm_zero_vector: "\<forall>x\<in>set v. x = Fin 0 \<Longrightarrow> squaredNorm v = Fin 0"
  by (simp add: squaredNorm_def foldl_zero_squares)

lemma dot_self_fold:
  "foldl (\<lambda>dot (x, y). fadd dot (fmul x y)) d (zip v v)
     = foldl (\<lambda>norm x. fadd norm (fmul x x)) d v"
  by (induction v arbitrary: d) simp_all

lemma dotProduct_self: "dotProduct v v = squaredNorm v"
  by (simp add: dotProduct_def squaredNorm_def dot_self_fold)

lemma cosineSimilarity_self:
  "cosineSimilarity (Some v) (Some v) =
     (if squaredNorm v = Fin 0 then Fin 0
      else fdiv (squaredNorm v) (fmul (fsqrt (squaredNorm v)) (fsqrt (squaredNorm v))))"
  by (simp add: cosineSimilarity_Some dotProduct_self)


lemma toDouble_one: "toDouble 1 = Fin 1"
  using toDouble_int [of 1] by simp

lemma toDouble_minus_one: "toDouble (- 1) = Fin (- 1)"
  using toDouble_int [of "- 1"] by simp

lemma squaredNorm_overflow: "squaredNorm hugeVector = PosInf"
proof -
  have "(2::real) ^ 1024 \<le> 2 ^ 520 * 2 ^ 520"
    by (simp add: power_add [symmetric])
  then have "toDouble (2 ^ 520 * 2 ^ 520) = PosInf" by (rule toDouble_overflow)
  then show ?thesis by (simp add: squaredNorm_def hugeVector_def)
qed

lemma cosineSimilarity_overflow: "cosineSimilarity (Some hugeVector) (Some hugeVector) = NaN"
  by (simp add: cosineSimilarity_self squaredNorm_overflow infinityOf_def)

lemma squaredNorm_underflow: "squaredNorm tinyVector = Fin 0"
proof -
  have "\<bar>(1::real) / 2 ^ 600 * (1 / 2 ^ 600)\<bar> < 1 / 2 ^ 1075"
    by (simp add: power_add [symmetric] field_simps)
  then have "toDouble (1 / 2 ^ 600 * (1 / 2 ^ 600)) = Fin 0" by (rule toDouble_underflow)
  then show ?thesis by (simp add: squaredNorm_def tinyVector_def toDouble_zero)
qed

lemma cosineSimilarity_underflow: "cosineSimilarity (Some tinyVector) (Some tinyVector) = Fin 0"
  by (simp add: cosineSimilarity_self squaredNorm_underflow)


lemma relative_bounds:
  fixes r y :: real
  assumes "\<bar>r - y\<bar> \<le> \<bar>y\<bar> / 2 ^ 53" and "0 < y"
  shows "y * (1 - 1 / 2 ^ 53) \<le> r" and "r \<le> y * (1 + 1 / 2 ^ 53)"
proof -
  define d where "d = y / 2 ^ 53"
  have "\<bar>r - y\<bar> \<le> d" using assms by (simp add: d_def)
  then have "y - d \<le> r" "r \<le> y + d" by linarith+
  moreover have "y * (1 - 1 / 2 ^ 53) = y - d" "y * (1 + 1 / 2 ^ 53) = y + d"
    by (simp_all only: d_def right_diff_distrib distrib_left mult_1_right times_divide_eq_right)
  ultimately show "y * (1 - 1 / 2 ^ 53) \<le> r" and "r \<le> y * (1 + 1 / 2 ^ 53)" by simp_all
qed

lemma numeric_upper: "(1 + 1 / 2 ^ 53) \<le> (1 + 1 / 2 ^ 50) * ((1 - 1 / 2 ^ 53) ^ 3 :: real)"
  by (simp add: power3_eq_cube field_simps)

lemma numeric_lower: "(1 - 1 / 2 ^ 50) * ((1 + 1 / 2 ^ 53) ^ 3 :: real) \<le> (1 - 1 / 2 ^ 53)"
  by (simp add: power3_eq_cube field_simps)


lemma self_quotient_bounds:
  fixes x s p q :: real
  assumes x: "0 < x"
      and s: "\<bar>s - sqrt x\<bar> \<le> \<bar>sqrt x\<bar> / 2 ^ 53"
      and p: "\<bar>p - s * s\<bar> \<le> \<bar>s * s\<bar> / 2 ^ 53"
  shows "x * (1 - 1 / 2 ^ 53) ^ 3 \<le> p" and "p \<le> x * (1 + 1 / 2 ^ 53) ^ 3"
proof -
  define lo :: real where "lo = 1 - 1 / 2 ^ 53"
  define hi :: real where "hi = 1 + 1 / 2 ^ 53"
  have lo: "0 < lo" and hi: "0 < hi" by (simp_all add: lo_def hi_def)
  define a where "a = sqrt x"
  have a: "0 < a" and aa: "a * a = x" using x by (simp_all add: a_def)
  have s1: "a * lo \<le> s" and s2: "s \<le> a * hi"
    using relative_bounds [OF s [folded a_def] a] by (simp_all add: lo_def hi_def)
  have spos: "0 < s" using s1 a lo by (meson less_le_trans mult_pos_pos)
  have alo: "0 \<le> a * lo" using a lo by simp
  have "(a * lo) * (a * lo) \<le> s * s"
    using s1 alo spos by (intro mult_mono) simp_all
  moreover have "(a * lo) * (a * lo) = x * lo ^ 2"
    unfolding aa [symmetric] by (simp add: power2_eq_square algebra_simps)
  ultimately have ss1: "x * lo ^ 2 \<le> s * s" by simp
  have "s * s \<le> (a * hi) * (a * hi)"
    using s2 spos by (intro mult_mono) simp_all
  moreover have "(a * hi) * (a * hi) = x * hi ^ 2"
    unfolding aa [symmetric] by (simp add: power2_eq_square algebra_simps)
  ultimately have ss2: "s * s \<le> x * hi ^ 2" by simp
  have sspos: "0 < s * s" using spos by simp
  have p1: "(s * s) * lo \<le> p" and p2: "p \<le> (s * s) * hi"
    using relative_bounds [OF p sspos] by (simp_all add: lo_def hi_def)
  have "(x * lo ^ 2) * lo \<le> (s * s) * lo"
    using ss1 lo by (intro mult_right_mono) simp_all
  moreover have "(x * lo ^ 2) * lo = x * lo ^ 3"
    by (simp add: power3_eq_cube power2_eq_square algebra_simps)
  ultimately have "x * lo ^ 3 \<le> p" using p1 by linarith
  then show "x * (1 - 1 / 2 ^ 53) ^ 3 \<le> p" by (simp only: lo_def)
  have "(s * s) * hi \<le> (x * hi ^ 2) * hi"
    using ss2 hi by (intro mult_right_mono) simp_all
  moreover have "(x * hi ^ 2) * hi = x * hi ^ 3"
    by (simp add: power3_eq_cube power2_eq_square algebra_simps)
  ultimately have "p \<le> x * hi ^ 3" using p2 by linarith
  then show "p \<le> x * (1 + 1 / 2 ^ 53) ^ 3" by (simp only: hi_def)
qed


lemma sqrt_two_power: "sqrt (2 ^ 500) = 2 ^ 250"
  by (rule real_sqrt_unique) simp_all

lemma cosineSimilarity_self_near_one:
  assumes n: "squaredNorm v = Fin x" and xlo: "1 / 2 ^ 500 \<le> x" and xhi: "x \<le> 2 ^ 500"
  shows "numBetween (1 - 1 / 2 ^ 50) (1 + 1 / 2 ^ 50) (cosineSimilarity (Some v) (Some v))"
proof -
  define lo :: real where "lo = 1 - 1 / 2 ^ 53"
  define hi :: real where "hi = 1 + 1 / 2 ^ 53"
  have lo: "0 < lo" and hi: "0 < hi" and lo2: "1 / 2 \<le> lo" and hi2: "hi \<le> 2"
    and lo1: "lo \<le> 1" and hi1: "1 \<le> hi"
    by (simp_all add: lo_def hi_def)
  have x: "0 < x" using xlo by (rule less_le_trans [rotated]) simp
  define a where "a = sqrt x"
  have a: "0 < a" using x by (simp add: a_def)
  have "sqrt (1 / 2 ^ 500) \<le> a" unfolding a_def using xlo by (rule real_sqrt_le_mono)
  then have alo: "1 / 2 ^ 250 \<le> a" by (simp only: real_sqrt_divide sqrt_two_power real_sqrt_one)
  have "a \<le> sqrt (2 ^ 500)" unfolding a_def using xhi by (rule real_sqrt_le_mono)
  then have ahi: "a \<le> 2 ^ 250" by (simp only: sqrt_two_power)
  have "1 / 2 ^ 1022 \<le> \<bar>a\<bar>"
  proof -
    have "(1::real) / 2 ^ 1022 \<le> 1 / 2 ^ 250" by (simp add: field_simps)
    with alo a show ?thesis by linarith
  qed
  moreover have "\<bar>a\<bar> \<le> 2 ^ 1023"
  proof -
    have "(2::real) ^ 250 \<le> 2 ^ 1023" by simp
    with ahi a show ?thesis by linarith
  qed
  ultimately obtain s where s: "toDouble a = Fin s" and snear: "\<bar>s - a\<bar> \<le> \<bar>a\<bar> / 2 ^ 53"
    using toDouble_relative [of a] by blast
  have s1: "a * lo \<le> s" and s2: "s \<le> a * hi"
    using relative_bounds [OF snear a] by (simp_all add: lo_def hi_def)
  have "(1::real) / 2 ^ 251 = (1 / 2 ^ 250) * (1 / 2)" by simp
  also have "\<dots> \<le> a * (1 / 2)" using alo by (intro mult_right_mono) simp_all
  also have "\<dots> \<le> a * lo" using lo2 a by (intro mult_left_mono) simp_all
  also have "\<dots> \<le> s" by (rule s1)
  finally have slo: "1 / 2 ^ 251 \<le> s" .
  note s2
  also have "a * hi \<le> a * 2" using hi2 a by (intro mult_left_mono) simp_all
  also have "\<dots> \<le> 2 ^ 250 * 2" using ahi by (intro mult_right_mono) simp_all
  also have "\<dots> = (2::real) ^ 251" by simp
  finally have shi: "s \<le> 2 ^ 251" .
  have spos: "0 < s" using slo by (rule less_le_trans [rotated]) simp
  have "(1 / 2 ^ 251) * (1 / 2 ^ 251) \<le> s * s"
    using slo spos by (intro mult_mono) simp_all
  then have sslo: "1 / 2 ^ 502 \<le> s * s" by (simp add: power_add [symmetric])
  have "s * s \<le> 2 ^ 251 * 2 ^ 251"
    using shi spos by (intro mult_mono) simp_all
  then have sshi: "s * s \<le> 2 ^ 502" by (simp add: power_add [symmetric])
  have sspos: "0 < s * s" using spos by simp
  have "1 / 2 ^ 1022 \<le> \<bar>s * s\<bar>"
  proof -
    have "(1::real) / 2 ^ 1022 \<le> 1 / 2 ^ 502" by (simp add: field_simps)
    with sslo sspos show ?thesis by linarith
  qed
  moreover have "\<bar>s * s\<bar> \<le> 2 ^ 1023"
  proof -
    have "(2::real) ^ 502 \<le> 2 ^ 1023" by simp
    with sshi sspos show ?thesis by linarith
  qed
  ultimately obtain p where p: "toDouble (s * s) = Fin p"
      and pnear: "\<bar>p - s * s\<bar> \<le> \<bar>s * s\<bar> / 2 ^ 53"
    using toDouble_relative [of "s * s"] by blast
  have p1: "x * lo ^ 3 \<le> p" and p2: "p \<le> x * hi ^ 3"
    using self_quotient_bounds [OF x snear [unfolded a_def] pnear] by (simp_all only: lo_def hi_def)
  have lo3: "0 < lo ^ 3" and hi3: "0 < hi ^ 3" using lo hi by simp_all
  have ppos: "0 < p" using p1 x lo3 by (meson less_le_trans mult_pos_pos)
  define t where "t = x / p"
  have tpos: "0 < t" using x ppos by (simp add: t_def)
  have t1: "1 / hi ^ 3 \<le> t"
    unfolding t_def using p2 x ppos hi3 by (simp add: field_simps)
  have t2: "t \<le> 1 / lo ^ 3"
    unfolding t_def using p1 x ppos lo3 by (simp add: field_simps)
  have "hi ^ 3 \<le> 2 ^ 3" using hi2 hi by (intro power_mono) simp_all
  then have "1 / 2 ^ 3 \<le> 1 / hi ^ 3" using hi3 by (intro divide_left_mono) simp_all
  moreover have "(1::real) / 2 ^ 3 = 1 / 8" by simp
  ultimately have tlo: "1 / 8 \<le> t" using t1 by linarith
  have "(1 / 2) ^ 3 \<le> lo ^ 3" using lo2 by (intro power_mono) simp_all
  then have "1 / lo ^ 3 \<le> 1 / (1 / 2) ^ 3" using lo3 by (intro divide_left_mono) simp_all
  moreover have "(1::real) / (1 / 2) ^ 3 = 8" by (simp add: power3_eq_cube)
  ultimately have thi: "t \<le> 8" using t2 by linarith
  have "1 / 2 ^ 1022 \<le> \<bar>t\<bar>"
  proof -
    have "(1::real) / 2 ^ 1022 \<le> 1 / 8" by (simp add: field_simps)
    with tlo tpos show ?thesis by linarith
  qed
  moreover have "\<bar>t\<bar> \<le> 2 ^ 1023"
  proof -
    have "(8::real) \<le> 2 ^ 1023" by simp
    with thi tpos show ?thesis by linarith
  qed
  ultimately obtain q where q: "toDouble t = Fin q" and qnear: "\<bar>q - t\<bar> \<le> \<bar>t\<bar> / 2 ^ 53"
    using toDouble_relative [of t] by blast
  have q1: "t * lo \<le> q" and q2: "q \<le> t * hi"
    using relative_bounds [OF qnear tpos] by (simp_all add: lo_def hi_def)
  have "(1 - 1 / 2 ^ 50) * hi ^ 3 \<le> lo"
    using numeric_lower by (simp only: lo_def hi_def)
  then have "1 - 1 / 2 ^ 50 \<le> lo / hi ^ 3" using hi3 by (simp only: pos_le_divide_eq)
  also have "\<dots> = (1 / hi ^ 3) * lo" by simp
  also have "\<dots> \<le> t * lo" using t1 lo by (intro mult_right_mono) simp_all
  finally have low: "1 - 1 / 2 ^ 50 \<le> q" using q1 by linarith
  have "hi \<le> (1 + 1 / 2 ^ 50) * lo ^ 3"
    using numeric_upper by (simp only: lo_def hi_def)
  then have up0: "hi / lo ^ 3 \<le> 1 + 1 / 2 ^ 50" using lo3 by (simp only: pos_divide_le_eq)
  have "t * hi \<le> (1 / lo ^ 3) * hi" using t2 hi by (intro mult_right_mono) simp_all
  also have "\<dots> = hi / lo ^ 3" by simp
  finally have up: "q \<le> 1 + 1 / 2 ^ 50" using q2 up0 by linarith
  have x0: "\<not> x < 0" "x \<noteq> 0" using x by simp_all
  have p0: "p \<noteq> 0" using ppos by simp
  have "cosineSimilarity (Some v) (Some v) = Fin q"
    unfolding cosineSimilarity_self n
    by (simp only: fsqrt.simps fmul.simps fdiv.simps x0 p0 s [unfolded a_def] p q [unfolded t_def]
          jsnum.inject if_False)
  then show ?thesis using low up by (simp only: numBetween.simps)
qed

text \<open>
  Claim C5, as stated, fails for three vectors taken against themselves: the zero vector
  gives 0 by the guard on a zero norm; a non-zero vector whose square underflows gives 0
  by the same guard; a finite vector whose square overflows gives \<^verbatim>\<open>NaN\<close>. None of the
  three results is within one half of 1.
\<close>

theorem cosineSimilarity_self_counterexample:
  "cosineSimilarity (Some [Fin 0]) (Some [Fin 0]) = Fin 0
   \<and> cosineSimilarity (Some tinyVector) (Some tinyVector) = Fin 0
   \<and> cosineSimilarity (Some hugeVector) (Some hugeVector) = NaN
   \<and> \<not> numBetween (1 / 2) (3 / 2) (cosineSimilarity (Some [Fin 0]) (Some [Fin 0]))
   \<and> \<not> numBetween (1 / 2) (3 / 2) (cosineSimilarity (Some tinyVector) (Some tinyVector))
   \<and> \<not> numBetween (1 / 2) (3 / 2) (cosineSimilarity (Some hugeVector) (Some hugeVector))"
proof -
  have "cosineSimilarity (Some [Fin 0]) (Some [Fin 0]) = Fin 0"
    by (rule cosineSimilarity_zero_norm) (simp add: squaredNorm_zero_vector)
  then show ?thesis by (simp add: cosineSimilarity_underflow cosineSimilarity_overflow)
qed

text \<open>
  Claim C5, amended. When the squared norm that the loop accumulates for \<open>v\<close> is a finite
  number between \<open>1 / 2 ^ 500\<close> and \<open>2 ^ 500\<close>, \<^verbatim>\<open>cosineSimilarity(v, v)\<close> is a finite number
  within \<open>1 / 2 ^ 50\<close> of 1. When that squared norm is 0 (the zero vector, the empty vector, a
  vector whose squares underflow), \<^verbatim>\<open>cosineSimilarity(v, v)\<close> is 0. For every \<open>v\<close> and a
  zero vector of any length, \<^verbatim>\<open>cosineSimilarity\<close> of the two, in either order, is 0.
\<close>

theorem cosineSimilarity_self_and_zero:
  "(squaredNorm v = Fin x \<and> 1 / 2 ^ 500 \<le> x \<and> x \<le> 2 ^ 500 \<longrightarrow>
      numBetween (1 - 1 / 2 ^ 50) (1 + 1 / 2 ^ 50) (cosineSimilarity (Some v) (Some v)))
   \<and> (squaredNorm v = Fin 0 \<longrightarrow> cosineSimilarity (Some v) (Some v) = Fin 0)
   \<and> cosineSimilarity (Some v) (Some (replicate n (Fin 0))) = Fin 0
   \<and> cosineSimilarity (Some (replicate n (Fin 0))) (Some v) = Fin 0"
proof -
  have z: "squaredNorm (replicate n (Fin 0)) = Fin 0"
    by (rule squaredNorm_zero_vector) simp
  have "squaredNorm v = Fin x \<and> 1 / 2 ^ 500 \<le> x \<and> x \<le> 2 ^ 500 \<longrightarrow>
      numBetween (1 - 1 / 2 ^ 50) (1 + 1 / 2 ^ 50) (cosineSimilarity (Some v) (Some v))"
    using cosineSimilarity_self_near_one [of v x] by blast
  moreover have "squaredNorm v = Fin 0 \<longrightarrow> cosineSimilarity (Some v) (Some v) = Fin 0"
    using cosineSimilarity_zero_norm [of v v] by blast
  moreover have "cosineSimilarity (Some v) (Some (replicate n (Fin 0))) = Fin 0"
    using cosineSimilarity_zero_norm [of v "replicate n (Fin 0)"] z by blast
  moreover have "cosineSimilarity (Some (replicate n (Fin 0))) (Some v) = Fin 0"
    using cosineSimilarity_zero_norm [of "replicate n (Fin 0)" v] z by blast
  ultimately show ?thesis by blast
qed

theorem cosineSimilarity_self_and_zero_witness:
  "squaredNorm [Fin 3, Fin 4] = Fin 25
   \<and> 1 / 2 ^ 500 \<le> (25::real) \<and> (25::real) \<le> 2 ^ 500
   \<and> numBetween (1 - 1 / 2 ^ 50) (1 + 1 / 2 ^ 50)
       (cosineSimilarity (Some [Fin 3, Fin 4]) (Some [Fin 3, Fin 4]))
   \<and> squaredNorm tinyVector = Fin 0
   \<and> cosineSimilarity (Some tinyVector) (Some tinyVector) = Fin 0
   \<and> cosineSimilarity (Some [Fin 3, Fin 4]) (Some (replicate 2 (Fin 0))) = Fin 0"
proof -
  have n: "squaredNorm [Fin 3, Fin 4] = Fin 25"
    using toDouble_int [of 9] toDouble_int [of 16] toDouble_int [of 25]
    by (simp add: squaredNorm_def)
  have lo: "1 / 2 ^ 500 \<le> (25::real)" by (simp add: field_simps)
  have hi: "(25::real) \<le> 2 ^ 500" by simp
  note a = cosineSimilarity_self_and_zero [of "[Fin 3, Fin 4]" 25 2]
  note b = cosineSimilarity_self_and_zero [of tinyVector 0 0]
  have 1: "numBetween (1 - 1 / 2 ^ 50) (1 + 1 / 2 ^ 50)
       (cosineSimilarity (Some [Fin 3, Fin 4]) (Some [Fin 3, Fin 4]))"
    using a n lo hi by blast
  have 2: "cosineSimilarity (Some tinyVector) (Some tinyVector) = Fin 0"
    using b squaredNorm_underflow by blast
  have 3: "cosineSimilarity (Some [Fin 3, Fin 4]) (Some (replicate 2 (Fin 0))) = Fin 0"
    using a by blast
  show ?thesis using n lo hi 1 squaredNorm_underflow 2 3 by blast
qed

lemma toDouble_error:
  assumes "\<bar>z\<bar> \<le> 2 ^ 1023"
  shows "\<exists>r. toDouble z = Fin r \<and> \<bar>r - z\<bar> \<le> \<bar>z\<bar> / 2 ^ 53 + 1 / 2 ^ 1075"
proof (cases "1 / 2 ^ 1022 \<le> \<bar>z\<bar>")
  case True
  then obtain r where r: "toDouble z = Fin r" "\<bar>r - z\<bar> \<le> \<bar>z\<bar> / 2 ^ 53"
    using toDouble_relative [OF True assms] by blast
  have "\<bar>z\<bar> / 2 ^ 53 \<le> \<bar>z\<bar> / 2 ^ 53 + 1 / 2 ^ 1075" by simp
  with r(2) have "\<bar>r - z\<bar> \<le> \<bar>z\<bar> / 2 ^ 53 + 1 / 2 ^ 1075" by (rule order_trans)
  with r(1) show ?thesis by blast
next
  case small: False
  show ?thesis
  proof (cases "z = 0")
    case True
    then show ?thesis by (simp add: toDouble_def)
  next
    case z0: False
    have zlt: "\<bar>z\<bar> < 1 / 2 ^ 1022" using small by simp
    then have "\<bar>z\<bar> < 2 powr real_of_int (- 1022)"
      by (simp add: powr_minus powr_realpow [symmetric] inverse_eq_divide)
    then have "log 2 \<bar>z\<bar> < real_of_int (- 1022)" using z0 by (simp add: log_less_iff)
    then have "\<lfloor>log 2 \<bar>z\<bar>\<rfloor> < - 1022" by (simp add: floor_less_iff)
    then have expo: "exponentOf z = - 1022" by (simp add: exponentOf_def)
    have ulp: "ulpOf z = 1 / 2 ^ 1074"
      unfolding ulpOf_def expo by (simp add: powr_minus powr_realpow [symmetric] inverse_eq_divide)
    define r where "r = real_of_int (roundHalfEven (z / ulpOf z)) * ulpOf z"
    have "\<bar>r - z\<bar> \<le> ulpOf z / 2" unfolding r_def by (rule rounded_near)
    also have "\<dots> = 1 / 2 ^ 1075" by (simp add: ulp)
    finally have near: "\<bar>r - z\<bar> \<le> 1 / 2 ^ 1075" .
    have "\<bar>r\<bar> \<le> \<bar>z\<bar> + \<bar>r - z\<bar>" by simp
    also have "\<dots> \<le> 1 / 2 ^ 1022 + 1 / 2 ^ 1075" using near zlt by simp
    also have "\<dots> < (2::real) ^ 1024" by (simp add: field_simps)
    finally have "\<not> 2 ^ 1024 \<le> \<bar>r\<bar>" by simp
    then have "toDouble z = Fin r"
      using z0 by (simp add: toDouble_def Let_def r_def)
    moreover have "\<bar>r - z\<bar> \<le> \<bar>z\<bar> / 2 ^ 53 + 1 / 2 ^ 1075"
    proof -
      have "0 \<le> \<bar>z\<bar> / 2 ^ 53" by simp
      with near show ?thesis by linarith
    qed
    ultimately show ?thesis by blast
  qed
qed

lemma abs_sum_list_le:
  fixes ps :: "(real \<times> real) list"
  shows "\<bar>\<Sum>(x, y)\<leftarrow>ps. x * y\<bar> \<le> (\<Sum>(x, y)\<leftarrow>ps. \<bar>x * y\<bar>)"
  by (induction ps) auto

lemma abs_sum_list_nonneg:
  fixes ps :: "(real \<times> real) list"
  shows "0 \<le> (\<Sum>(x, y)\<leftarrow>ps. \<bar>x * y\<bar>)"
  by (induction ps) auto

lemma abs_sum_list_bound:
  fixes ps :: "(real \<times> real) list"
  assumes "\<forall>(x, y)\<in>set ps. \<bar>x\<bar> \<le> c \<and> \<bar>y\<bar> \<le> c"
  shows "(\<Sum>(x, y)\<leftarrow>ps. \<bar>x * y\<bar>) \<le> real (length ps) * (c * c)"
  using assms
proof (induction ps)
  case Nil
  show ?case by simp
next
  case (Cons p ps)
  obtain x y where p: "p = (x, y)" by (cases p)
  have x: "\<bar>x\<bar> \<le> c" and y: "\<bar>y\<bar> \<le> c" using Cons.prems p by simp_all
  have "\<bar>x * y\<bar> = \<bar>x\<bar> * \<bar>y\<bar>" by (rule abs_mult)
  also have "\<dots> \<le> c * c" using x y by (intro mult_mono) simp_all
  finally have xy: "\<bar>x * y\<bar> \<le> c * c" .
  have "(\<Sum>(x, y)\<leftarrow>ps. \<bar>x * y\<bar>) \<le> real (length ps) * (c * c)"
    using Cons by simp
  with xy show ?case by (simp add: p algebra_simps)
qed

lemma accumulation_step:
  fixes K e h T0 t E0 :: real
  assumes K: "0 \<le> K" and Ke: "K * e \<le> 1 / 4" and e: "0 \<le> e" "e \<le> 1 / 4"
      and h: "0 \<le> h" and T0: "0 \<le> T0" and t: "0 \<le> t"
      and E0: "E0 = 4 * K * (e * T0 + h)"
  shows "e * (T0 + E0 + t + e * t + h) + h + E0 + e * t + h \<le> 4 * (K + 1) * (e * (T0 + t) + h)"
proof -
  have "4 * (K + 1) * (e * (T0 + t) + h) - (e * (T0 + E0 + t + e * t + h) + h + E0 + e * t + h)
          = e * T0 * (3 - 4 * (K * e)) + e * t * (4 * K + 2 - e) + h * (2 - e - 4 * (K * e))"
    unfolding E0 by (simp add: algebra_simps)
  moreover have "0 \<le> e * T0 * (3 - 4 * (K * e))"
    using e T0 Ke by (intro mult_nonneg_nonneg) simp_all
  moreover have "0 \<le> e * t * (4 * K + 2 - e)"
    using e t K by (intro mult_nonneg_nonneg) simp_all
  moreover have "0 \<le> h * (2 - e - 4 * (K * e))"
    using h e Ke by (intro mult_nonneg_nonneg) simp_all
  ultimately show ?thesis by linarith
qed

lemma dot_accumulation:
  fixes ps :: "(real \<times> real) list"
  assumes "\<forall>(x, y)\<in>set ps. \<bar>x\<bar> \<le> 2 ^ 250 \<and> \<bar>y\<bar> \<le> 2 ^ 250" and "length ps \<le> 2 ^ 20"
  shows "\<exists>d. foldl (\<lambda>dot (x, y). fadd dot (fmul (Fin x) (Fin y))) (Fin 0) ps = Fin d
           \<and> \<bar>d - (\<Sum>(x, y)\<leftarrow>ps. x * y)\<bar>
               \<le> 4 * real (length ps) * ((\<Sum>(x, y)\<leftarrow>ps. \<bar>x * y\<bar>) / 2 ^ 53 + 1 / 2 ^ 1075)"
  using assms
proof (induction ps rule: rev_induct)
  case Nil
  show ?case by simp
next
  case (snoc p ps)
  obtain x y where p: "p = (x, y)" by (cases p)
  define e :: real where "e = 1 / 2 ^ 53"
  define h :: real where "h = 1 / 2 ^ 1075"
  define K where "K = real (length ps)"
  define T0 where "T0 = (\<Sum>(x, y)\<leftarrow>ps. \<bar>x * y\<bar>)"
  define D0 where "D0 = (\<Sum>(x, y)\<leftarrow>ps. x * y)"
  define t where "t = \<bar>x * y\<bar>"
  define E0 where "E0 = 4 * K * (e * T0 + h)"
  have e: "0 \<le> e" "e \<le> 1 / 4" and h: "0 \<le> h" "h \<le> 1" by (simp_all add: e_def h_def)
  have K: "0 \<le> K" by (simp add: K_def)
  have len: "length ps \<le> 2 ^ 20" using snoc.prems(2) by simp
  then have "K \<le> 2 ^ 20" unfolding K_def
    by (metis of_nat_le_iff of_nat_numeral of_nat_power)
  then have Kle: "K \<le> 1048576" by simp
  have "K * e \<le> 1048576 * e" using Kle e(1) by (rule mult_right_mono)
  also have "\<dots> \<le> 1 / 4" by (simp add: e_def)
  finally have Ke: "K * e \<le> 1 / 4" .
  have T0: "0 \<le> T0" unfolding T0_def by (rule abs_sum_list_nonneg)
  have t: "0 \<le> t" by (simp add: t_def)
  have elems: "\<forall>(x, y)\<in>set ps. \<bar>x\<bar> \<le> 2 ^ 250 \<and> \<bar>y\<bar> \<le> 2 ^ 250"
    using snoc.prems(1) by simp
  have xy: "\<bar>x\<bar> \<le> 2 ^ 250" "\<bar>y\<bar> \<le> 2 ^ 250" using snoc.prems(1) p by simp_all
  have "T0 \<le> K * (2 ^ 250 * 2 ^ 250)"
    unfolding T0_def K_def using elems by (rule abs_sum_list_bound)
  also have "\<dots> \<le> 1048576 * (2 ^ 250 * 2 ^ 250)" using Kle by (intro mult_right_mono) simp_all
  also have "\<dots> = 2 ^ 520" by simp
  finally have T0le: "T0 \<le> 2 ^ 520" .
  have "t = \<bar>x\<bar> * \<bar>y\<bar>" by (simp add: t_def abs_mult)
  also have "\<dots> \<le> 2 ^ 250 * 2 ^ 250" using xy by (intro mult_mono) simp_all
  also have "\<dots> = (2::real) ^ 500" by simp
  finally have tle: "t \<le> 2 ^ 500" .
  obtain d0 where d0: "foldl (\<lambda>dot (x, y). fadd dot (fmul (Fin x) (Fin y))) (Fin 0) ps = Fin d0"
    and err0: "\<bar>d0 - D0\<bar> \<le> E0"
    using snoc.IH [OF elems len] unfolding E0_def K_def T0_def D0_def e_def h_def
    by (auto simp: algebra_simps)
  have D0: "\<bar>D0\<bar> \<le> T0" unfolding D0_def T0_def by (rule abs_sum_list_le)
  have "K * (e * T0) = (K * e) * T0" by simp
  also have "\<dots> \<le> (1 / 4) * T0" using Ke T0 by (rule mult_right_mono)
  finally have KeT: "K * (e * T0) \<le> T0 / 4" by simp
  have "K * h \<le> 1048576 * h" using Kle h(1) by (rule mult_right_mono)
  also have "\<dots> \<le> 1 / 4" by (simp add: h_def field_simps)
  finally have Kh: "K * h \<le> 1 / 4" .
  have E0le: "E0 \<le> T0 + 1"
  proof -
    have "E0 = 4 * (K * (e * T0)) + 4 * (K * h)" by (simp add: E0_def algebra_simps)
    then show ?thesis using KeT Kh by linarith
  qed
  have "\<bar>x * y\<bar> \<le> 2 ^ 1023"
  proof -
    have "(2::real) ^ 500 \<le> 2 ^ 1023" by simp
    with tle show ?thesis unfolding t_def by linarith
  qed
  then obtain q where q: "toDouble (x * y) = Fin q" and qerr: "\<bar>q - x * y\<bar> \<le> e * t + h"
    using toDouble_error [of "x * y"] unfolding e_def h_def t_def by auto
  have et: "e * t \<le> t"
  proof -
    have "e * t \<le> 1 * t" using e t by (intro mult_right_mono) simp_all
    then show ?thesis by simp
  qed
  have d0le: "\<bar>d0\<bar> \<le> 2 * T0 + 1" using err0 D0 E0le by linarith
  have qle: "\<bar>q\<bar> \<le> 2 * t + 1" using qerr et h unfolding t_def by linarith
  define z where "z = d0 + q"
  have zabs: "\<bar>z\<bar> \<le> T0 + E0 + t + e * t + h"
    unfolding z_def using err0 D0 qerr unfolding t_def by linarith
  have "\<bar>z\<bar> \<le> 2 * 2 ^ 520 + 1 + (2 * 2 ^ 500 + 1)"
    unfolding z_def using d0le qle T0le tle by linarith
  also have "\<dots> \<le> (2::real) ^ 1023" by simp
  finally have "\<bar>z\<bar> \<le> 2 ^ 1023" .
  then obtain d where d: "toDouble z = Fin d" and derr: "\<bar>d - z\<bar> \<le> e * \<bar>z\<bar> + h"
    using toDouble_error [of z] unfolding e_def h_def by auto
  have ez: "e * \<bar>z\<bar> \<le> e * (T0 + E0 + t + e * t + h)"
    using zabs e(1) by (rule mult_left_mono)
  have "\<bar>d - (D0 + x * y)\<bar> \<le> \<bar>d - z\<bar> + \<bar>d0 - D0\<bar> + \<bar>q - x * y\<bar>"
    unfolding z_def by linarith
  also have "\<dots> \<le> e * (T0 + E0 + t + e * t + h) + h + E0 + e * t + h"
    using derr ez err0 qerr by linarith
  also have "\<dots> \<le> 4 * (K + 1) * (e * (T0 + t) + h)"
    using K Ke e h(1) T0 t E0_def by (rule accumulation_step)
  finally have final: "\<bar>d - (D0 + x * y)\<bar> \<le> 4 * (K + 1) * (e * (T0 + t) + h)" .
  have "foldl (\<lambda>dot (x, y). fadd dot (fmul (Fin x) (Fin y))) (Fin 0) (ps @ [p])
          = fadd (Fin d0) (fmul (Fin x) (Fin y))"
    by (simp only: foldl_append foldl.simps p prod.case d0)
  also have "\<dots> = Fin d" by (simp add: q d [unfolded z_def])
  finally have fold:
    "foldl (\<lambda>dot (x, y). fadd dot (fmul (Fin x) (Fin y))) (Fin 0) (ps @ [p]) = Fin d" .
  have sums: "(\<Sum>(x, y)\<leftarrow>ps @ [p]. x * y) = D0 + x * y"
    "(\<Sum>(x, y)\<leftarrow>ps @ [p]. \<bar>x * y\<bar>) = T0 + t"
    "real (length (ps @ [p])) = K + 1"
    by (simp_all add: p D0_def T0_def t_def K_def)
  have "4 * (K + 1) * (e * (T0 + t) + h)
          = 4 * real (length (ps @ [p])) * ((\<Sum>(x, y)\<leftarrow>ps @ [p]. \<bar>x * y\<bar>) / 2 ^ 53 + 1 / 2 ^ 1075)"
    unfolding sums by (simp add: e_def h_def)
  with final have "\<bar>d - (\<Sum>(x, y)\<leftarrow>ps @ [p]. x * y)\<bar>
      \<le> 4 * real (length (ps @ [p])) * ((\<Sum>(x, y)\<leftarrow>ps @ [p]. \<bar>x * y\<bar>) / 2 ^ 53 + 1 / 2 ^ 1075)"
    unfolding sums(1) by simp
  with fold show ?case by blast
qed

lemma sqrt_two_powers: "sqrt (2 ^ 502) = 2 ^ 251" "sqrt (2 ^ 522) = 2 ^ 261"
  by (rule real_sqrt_unique; simp)+

lemma quotient_stage:
  fixes a b d r :: real
  assumes a: "1 / 2 ^ 502 \<le> a" "a \<le> 2 ^ 522" and b: "1 / 2 ^ 502 \<le> b" "b \<le> 2 ^ 522"
      and d: "\<bar>d\<bar> \<le> r * (sqrt a * sqrt b)" and r: "r \<le> 2"
  shows "\<exists>q. fdiv (Fin d) (fmul (fsqrt (Fin a)) (fsqrt (Fin b))) = Fin q
           \<and> \<bar>q\<bar> * (1 - 1 / 2 ^ 53) ^ 3 \<le> r * (1 + 1 / 2 ^ 53) + 1 / 2 ^ 1075"
proof -
  define lo :: real where "lo = 1 - 1 / 2 ^ 53"
  define hi :: real where "hi = 1 + 1 / 2 ^ 53"
  define h :: real where "h = 1 / 2 ^ 1075"
  have lo: "0 < lo" and hi: "0 < hi" and lo2: "1 / 2 \<le> lo" and hi2: "hi \<le> 2"
    and lo1: "lo \<le> 1" and h: "0 \<le> h"
    by (simp_all add: lo_def hi_def h_def)
  have stage: "\<exists>s. toDouble (sqrt x) = Fin s \<and> sqrt x * lo \<le> s \<and> s \<le> sqrt x * hi
                 \<and> 1 / 2 ^ 252 \<le> s \<and> s \<le> 2 ^ 262 \<and> 0 < sqrt x"
    if x: "1 / 2 ^ 502 \<le> x" "x \<le> 2 ^ 522" for x :: real
  proof -
    define y where "y = sqrt x"
    have "sqrt (1 / 2 ^ 502) \<le> y" unfolding y_def using x(1) by (rule real_sqrt_le_mono)
    then have ylo: "1 / 2 ^ 251 \<le> y"
      by (simp only: real_sqrt_divide sqrt_two_powers real_sqrt_one)
    have "y \<le> sqrt (2 ^ 522)" unfolding y_def using x(2) by (rule real_sqrt_le_mono)
    then have yhi: "y \<le> 2 ^ 261" by (simp only: sqrt_two_powers)
    have ypos: "0 < y" using ylo by (rule less_le_trans [rotated]) simp
    have "1 / 2 ^ 1022 \<le> \<bar>y\<bar>"
    proof -
      have "(1::real) / 2 ^ 1022 \<le> 1 / 2 ^ 251" by (simp add: field_simps)
      with ylo ypos show ?thesis by linarith
    qed
    moreover have "\<bar>y\<bar> \<le> 2 ^ 1023"
    proof -
      have "(2::real) ^ 261 \<le> 2 ^ 1023" by simp
      with yhi ypos show ?thesis by linarith
    qed
    ultimately obtain s where s: "toDouble y = Fin s" and near: "\<bar>s - y\<bar> \<le> \<bar>y\<bar> / 2 ^ 53"
      using toDouble_relative [of y] by blast
    have s1: "y * lo \<le> s" and s2: "s \<le> y * hi"
      using relative_bounds [OF near ypos] by (simp_all add: lo_def hi_def)
    have "(1::real) / 2 ^ 252 = (1 / 2 ^ 251) * (1 / 2)" by simp
    also have "\<dots> \<le> y * (1 / 2)" using ylo by (intro mult_right_mono) simp_all
    also have "\<dots> \<le> y * lo" using lo2 ypos by (intro mult_left_mono) simp_all
    also have "\<dots> \<le> s" by (rule s1)
    finally have slo: "1 / 2 ^ 252 \<le> s" .
    note s2
    also have "y * hi \<le> y * 2" using hi2 ypos by (intro mult_left_mono) simp_all
    also have "\<dots> \<le> 2 ^ 261 * 2" using yhi by (intro mult_right_mono) simp_all
    also have "\<dots> = (2::real) ^ 262" by simp
    finally have shi: "s \<le> 2 ^ 262" .
    show ?thesis using s s1 s2 slo shi ypos unfolding y_def by blast
  qed
  obtain s1 where s1: "toDouble (sqrt a) = Fin s1" "sqrt a * lo \<le> s1" "1 / 2 ^ 252 \<le> s1"
      "s1 \<le> 2 ^ 262" "0 < sqrt a"
    using stage [OF a] by blast
  obtain s2 where s2: "toDouble (sqrt b) = Fin s2" "sqrt b * lo \<le> s2" "1 / 2 ^ 252 \<le> s2"
      "s2 \<le> 2 ^ 262" "0 < sqrt b"
    using stage [OF b] by blast
  have s1pos: "0 < s1" using s1(3) by (rule less_le_trans [rotated]) simp
  have s2pos: "0 < s2" using s2(3) by (rule less_le_trans [rotated]) simp
  define m where "m = s1 * s2"
  have mpos: "0 < m" using s1pos s2pos by (simp add: m_def)
  have "(1 / 2 ^ 252) * (1 / 2 ^ 252) \<le> s1 * s2"
    using s1(3) s2(3) s1pos s2pos by (intro mult_mono) simp_all
  then have mlo: "1 / 2 ^ 504 \<le> m" by (simp add: m_def power_add [symmetric])
  have "s1 * s2 \<le> 2 ^ 262 * 2 ^ 262"
    using s1(4) s2(4) s1pos s2pos by (intro mult_mono) simp_all
  then have mhi: "m \<le> 2 ^ 524" by (simp add: m_def power_add [symmetric])
  have "1 / 2 ^ 1022 \<le> \<bar>m\<bar>"
  proof -
    have "(1::real) / 2 ^ 1022 \<le> 1 / 2 ^ 504" by (simp add: field_simps)
    with mlo mpos show ?thesis by linarith
  qed
  moreover have "\<bar>m\<bar> \<le> 2 ^ 1023"
  proof -
    have "(2::real) ^ 524 \<le> 2 ^ 1023" by simp
    with mhi mpos show ?thesis by linarith
  qed
  ultimately obtain p where p: "toDouble m = Fin p" and pnear: "\<bar>p - m\<bar> \<le> \<bar>m\<bar> / 2 ^ 53"
    using toDouble_relative [of m] by blast
  have p1: "m * lo \<le> p" using relative_bounds(1) [OF pnear mpos] by (simp add: lo_def)
  define g where "g = sqrt a * sqrt b"
  have gpos: "0 < g" using s1(5) s2(5) by (simp add: g_def)
  have "0 \<le> sqrt a * lo" "0 \<le> sqrt b * lo" using s1(5) s2(5) lo by simp_all
  then have "(sqrt a * lo) * (sqrt b * lo) \<le> s1 * s2"
    using s1(2) s2(2) s1pos s2pos by (intro mult_mono) simp_all
  then have "g * lo ^ 2 \<le> m" by (simp add: g_def m_def power2_eq_square algebra_simps)
  then have "(g * lo ^ 2) * lo \<le> m * lo" using lo by (intro mult_right_mono) simp_all
  moreover have "(g * lo ^ 2) * lo = g * lo ^ 3"
    by (simp add: power3_eq_cube power2_eq_square algebra_simps)
  ultimately have pg: "g * lo ^ 3 \<le> p" using p1 by linarith
  have lo3: "0 < lo ^ 3" using lo by simp
  have ppos: "0 < p" using pg gpos lo3 by (meson less_le_trans mult_pos_pos)
  have rpos: "0 \<le> r"
  proof -
    have "0 \<le> r * g" using d unfolding g_def by linarith
    then show ?thesis using gpos by (simp add: zero_le_mult_iff)
  qed
  define t where "t = d / p"
  have tabs: "\<bar>t\<bar> = \<bar>d\<bar> / p" unfolding t_def using ppos by (simp add: abs_divide)
  have "\<bar>d\<bar> * lo ^ 3 \<le> (r * g) * lo ^ 3"
    using d lo3 unfolding g_def by (intro mult_right_mono) simp_all
  also have "\<dots> = r * (g * lo ^ 3)" by simp
  also have "\<dots> \<le> r * p" using pg rpos by (rule mult_left_mono)
  finally have "\<bar>d\<bar> * lo ^ 3 \<le> r * p" .
  then have tl: "\<bar>t\<bar> * lo ^ 3 \<le> r"
    unfolding tabs using ppos by (simp add: field_simps)
  have "(1 / 2) ^ 3 \<le> lo ^ 3" using lo2 by (intro power_mono) simp_all
  then have "1 / 8 \<le> lo ^ 3" by (simp add: power3_eq_cube)
  then have "\<bar>t\<bar> * (1 / 8) \<le> \<bar>t\<bar> * lo ^ 3" by (intro mult_left_mono) simp_all
  with tl r have "\<bar>t\<bar> \<le> 16" by linarith
  then have "\<bar>t\<bar> \<le> 2 ^ 1023"
  proof -
    have "(16::real) \<le> 2 ^ 1023" by simp
    with \<open>\<bar>t\<bar> \<le> 16\<close> show ?thesis by linarith
  qed
  then obtain q where q: "toDouble t = Fin q" and qerr: "\<bar>q - t\<bar> \<le> \<bar>t\<bar> / 2 ^ 53 + h"
    using toDouble_error [of t] unfolding h_def by blast
  have "\<bar>q\<bar> \<le> \<bar>t\<bar> + (\<bar>t\<bar> / 2 ^ 53 + h)" using qerr by linarith
  also have "\<dots> = \<bar>t\<bar> * hi + h" by (simp add: hi_def algebra_simps)
  finally have "\<bar>q\<bar> \<le> \<bar>t\<bar> * hi + h" .
  then have "\<bar>q\<bar> * lo ^ 3 \<le> (\<bar>t\<bar> * hi + h) * lo ^ 3"
    using lo3 by (intro mult_right_mono) simp_all
  also have "\<dots> = (\<bar>t\<bar> * lo ^ 3) * hi + h * lo ^ 3" by (simp add: algebra_simps)
  also have "\<dots> \<le> r * hi + h * 1"
  proof -
    have "(\<bar>t\<bar> * lo ^ 3) * hi \<le> r * hi" using tl hi by (intro mult_right_mono) simp_all
    moreover have "lo ^ 3 \<le> 1" using lo lo1 by (simp add: power_le_one)
    then have "h * lo ^ 3 \<le> h * 1" using h by (intro mult_left_mono) simp_all
    ultimately show ?thesis by linarith
  qed
  finally have bound: "\<bar>q\<bar> * lo ^ 3 \<le> r * hi + h" by simp
  have a0: "\<not> a < 0" and b0: "\<not> b < 0" using s1(5) s2(5) by (simp_all add: not_less)
  have p0: "p \<noteq> 0" using ppos by simp
  have "fdiv (Fin d) (fmul (fsqrt (Fin a)) (fsqrt (Fin b))) = Fin q"
    by (simp only: fsqrt.simps fmul.simps fdiv.simps a0 b0 p0 s1(1) s2(1) p [unfolded m_def]
          q [unfolded t_def] if_False)
  with bound show ?thesis unfolding lo_def hi_def h_def by blast
qed

lemma fold_zip_Fin:
  "foldl (\<lambda>dot (x, y). fadd dot (fmul x y)) acc (zip (map Fin xs) (map Fin ys))
     = foldl (\<lambda>dot (x, y). fadd dot (fmul (Fin x) (Fin y))) acc (zip xs ys)"
proof (induction xs arbitrary: ys acc)
  case Nil
  show ?case by simp
next
  case (Cons x xs)
  show ?case
  proof (cases ys)
    case Nil
    then show ?thesis by simp
  next
    case (Cons y ys')
    then show ?thesis using Cons.IH [of _ ys'] by (simp del: fmul.simps fadd.simps)
  qed
qed

lemma dotProduct_Fin:
  "dotProduct (map Fin xs) (map Fin ys)
     = foldl (\<lambda>dot (x, y). fadd dot (fmul (Fin x) (Fin y))) (Fin 0) (zip xs ys)"
  unfolding dotProduct_def by (rule fold_zip_Fin)

lemma squaredNorm_Fin:
  "squaredNorm (map Fin xs)
     = foldl (\<lambda>dot (x, y). fadd dot (fmul (Fin x) (Fin y))) (Fin 0) (zip xs xs)"
  unfolding dotProduct_self [symmetric] by (rule dotProduct_Fin)

lemma sum_zip_self:
  fixes xs :: "real list"
  shows "(\<Sum>(x, y)\<leftarrow>zip xs xs. x * y) = (\<Sum>x\<leftarrow>xs. x * x)"
    and "(\<Sum>(x, y)\<leftarrow>zip xs xs. \<bar>x * y\<bar>) = (\<Sum>x\<leftarrow>xs. x * x)"
  by (induction xs) simp_all

lemma sum_squares_nonneg:
  fixes xs :: "real list"
  shows "0 \<le> (\<Sum>x\<leftarrow>xs. x * x)"
  by (induction xs) simp_all

lemma square_le_sum_squares:
  fixes xs :: "real list"
  shows "x \<in> set xs \<Longrightarrow> x * x \<le> (\<Sum>x\<leftarrow>xs. x * x)"
proof (induction xs)
  case Nil
  then show ?case by simp
next
  case (Cons z xs)
  have z: "0 \<le> z * z" by simp
  note n = sum_squares_nonneg [of xs]
  show ?case
  proof (cases "x = z")
    case True
    then show ?thesis using n by simp
  next
    case False
    then have "x * x \<le> (\<Sum>x\<leftarrow>xs. x * x)" using Cons by simp
    then have "x * x \<le> z * z + (\<Sum>x\<leftarrow>xs. x * x)" using zero_le_square [of z] by linarith
    then show ?thesis by simp
  qed
qed

lemma cross_term_bound:
  fixes x y D A B :: real
  assumes D: "D\<^sup>2 \<le> A * B" and A: "0 \<le> A" and B: "0 \<le> B"
  shows "2 * x * y * D \<le> x\<^sup>2 * B + y\<^sup>2 * A"
proof -
  have "(2 * x * y * D)\<^sup>2 = 4 * (x\<^sup>2 * y\<^sup>2) * D\<^sup>2"
    by (simp add: power2_eq_square)
  also have "\<dots> \<le> 4 * (x\<^sup>2 * y\<^sup>2) * (A * B)"
    by (rule mult_left_mono [OF D]) simp
  also have "\<dots> \<le> (x\<^sup>2 * B + y\<^sup>2 * A)\<^sup>2"
  proof -
    have "0 \<le> (x\<^sup>2 * B - y\<^sup>2 * A)\<^sup>2" by simp
    then show ?thesis by (simp add: power2_eq_square algebra_simps)
  qed
  finally have "(2 * x * y * D)\<^sup>2 \<le> (x\<^sup>2 * B + y\<^sup>2 * A)\<^sup>2" .
  moreover have "0 \<le> x\<^sup>2 * B + y\<^sup>2 * A" using A B by simp
  ultimately show ?thesis by (rule power2_le_imp_le)
qed

lemma abs_dot_square_bound:
  fixes xs ys :: "real list"
  shows "length xs = length ys \<Longrightarrow>
   (\<Sum>(x, y)\<leftarrow>zip xs ys. \<bar>x * y\<bar>)\<^sup>2 \<le> (\<Sum>x\<leftarrow>xs. x * x) * (\<Sum>y\<leftarrow>ys. y * y)"
proof (induction xs ys rule: list_induct2)
  case Nil
  show ?case by simp
next
  case (Cons x xs y ys)
  define D where "D = (\<Sum>(x, y)\<leftarrow>zip xs ys. \<bar>x * y\<bar>)"
  define A where "A = (\<Sum>x\<leftarrow>xs. x * x)"
  define B where "B = (\<Sum>y\<leftarrow>ys. y * y)"
  define u where "u = \<bar>x\<bar>"
  define v where "v = \<bar>y\<bar>"
  have IH: "D\<^sup>2 \<le> A * B" using Cons.IH by (simp add: D_def A_def B_def)
  have A: "0 \<le> A" and B: "0 \<le> B" by (simp_all add: A_def B_def sum_squares_nonneg)
  have cross: "2 * u * v * D \<le> u\<^sup>2 * B + v\<^sup>2 * A"
    by (rule cross_term_bound [OF IH A B])
  have "(u * v + D)\<^sup>2 = u\<^sup>2 * v\<^sup>2 + 2 * u * v * D + D\<^sup>2"
    by (simp add: power2_eq_square algebra_simps)
  also have "\<dots> \<le> u\<^sup>2 * v\<^sup>2 + (u\<^sup>2 * B + v\<^sup>2 * A) + A * B"
    using cross IH by simp
  also have "\<dots> = (u\<^sup>2 + A) * (v\<^sup>2 + B)"
    by (simp add: algebra_simps)
  finally have "(u * v + D)\<^sup>2 \<le> (u\<^sup>2 + A) * (v\<^sup>2 + B)" .
  moreover have "u\<^sup>2 = x * x" "v\<^sup>2 = y * y" "u * v = \<bar>x * y\<bar>"
    by (simp_all add: u_def v_def power2_eq_square abs_mult)
  ultimately show ?case
    by (simp add: D_def A_def B_def)
qed

lemma abs_dot_le_norms:
  fixes xs ys :: "real list"
  assumes "length xs = length ys"
  shows "(\<Sum>(x, y)\<leftarrow>zip xs ys. \<bar>x * y\<bar>) \<le> sqrt (\<Sum>x\<leftarrow>xs. x * x) * sqrt (\<Sum>y\<leftarrow>ys. y * y)"
proof -
  have "(\<Sum>(x, y)\<leftarrow>zip xs ys. \<bar>x * y\<bar>) = sqrt ((\<Sum>(x, y)\<leftarrow>zip xs ys. \<bar>x * y\<bar>)\<^sup>2)"
    using abs_sum_list_nonneg [of "zip xs ys"] by simp
  also have "\<dots> \<le> sqrt ((\<Sum>x\<leftarrow>xs. x * x) * (\<Sum>y\<leftarrow>ys. y * y))"
    using abs_dot_square_bound [OF assms] by (simp only: real_sqrt_le_iff)
  also have "\<dots> = sqrt (\<Sum>x\<leftarrow>xs. x * x) * sqrt (\<Sum>y\<leftarrow>ys. y * y)"
    by (rule real_sqrt_mult)
  finally show ?thesis .
qed

lemma zip_elements:
  assumes "\<forall>x\<in>set xs. \<bar>x\<bar> \<le> c" and "\<forall>y\<in>set ys. \<bar>y\<bar> \<le> c"
  shows "\<forall>(x, y)\<in>set (zip xs ys). \<bar>x\<bar> \<le> c \<and> \<bar>y\<bar> \<le> c"
  using assms by (auto dest: set_zip_leftD set_zip_rightD)

lemma accumulated_error:
  fixes xs ys :: "real list"
  assumes ex: "\<forall>x\<in>set xs. \<bar>x\<bar> \<le> 2 ^ 250" and ey: "\<forall>y\<in>set ys. \<bar>y\<bar> \<le> 2 ^ 250"
      and len: "length xs = length ys" "length xs \<le> 2 ^ 20"
      and G: "(\<Sum>(x, y)\<leftarrow>zip xs ys. \<bar>x * y\<bar>) \<le> G" "1 / 2 ^ 500 \<le> G"
  shows "\<exists>d. dotProduct (map Fin xs) (map Fin ys) = Fin d
           \<and> \<bar>d - (\<Sum>(x, y)\<leftarrow>zip xs ys. x * y)\<bar> \<le> G / 2 ^ 30"
proof -
  define T where "T = (\<Sum>(x, y)\<leftarrow>zip xs ys. \<bar>x * y\<bar>)"
  define K where "K = real (length (zip xs ys))"
  have l: "length (zip xs ys) \<le> 2 ^ 20" using len by simp
  obtain d where d: "dotProduct (map Fin xs) (map Fin ys) = Fin d"
    and err: "\<bar>d - (\<Sum>(x, y)\<leftarrow>zip xs ys. x * y)\<bar> \<le> 4 * K * (T / 2 ^ 53 + 1 / 2 ^ 1075)"
    using dot_accumulation [OF zip_elements [OF ex ey] l]
    unfolding dotProduct_Fin T_def K_def by blast
  have T: "0 \<le> T" unfolding T_def by (rule abs_sum_list_nonneg)
  have K0: "0 \<le> K" by (simp add: K_def)
  have "K \<le> 2 ^ 20" unfolding K_def using l
    by (metis of_nat_le_iff of_nat_numeral of_nat_power)
  then have K: "K \<le> 1048576" by simp
  have Gpos: "0 \<le> G" using T G(1) unfolding T_def by linarith
  have "T / 2 ^ 53 + 1 / 2 ^ 1075 \<le> G / 2 ^ 53 + G / 2 ^ 575"
  proof -
    have "T / 2 ^ 53 \<le> G / 2 ^ 53" using G(1) unfolding T_def by (simp add: divide_right_mono)
    moreover have "(1::real) / 2 ^ 1075 = (1 / 2 ^ 500) / 2 ^ 575"
      by (simp add: power_add [symmetric])
    moreover have "(1 / 2 ^ 500) / 2 ^ 575 \<le> G / 2 ^ 575"
      using G(2) by (intro divide_right_mono) simp_all
    ultimately show ?thesis by linarith
  qed
  also have "\<dots> \<le> G / 2 ^ 53 + G / 2 ^ 53"
  proof -
    have "G / 2 ^ 575 \<le> G / 2 ^ 53" using Gpos by (intro divide_left_mono) simp_all
    then show ?thesis by simp
  qed
  also have "\<dots> = G / 2 ^ 52" by simp
  finally have inner: "T / 2 ^ 53 + 1 / 2 ^ 1075 \<le> G / 2 ^ 52" .
  have inner0: "0 \<le> T / 2 ^ 53 + 1 / 2 ^ 1075" using T by simp
  have "4 * K * (T / 2 ^ 53 + 1 / 2 ^ 1075) \<le> 4 * 1048576 * (G / 2 ^ 52)"
    using K K0 inner inner0 Gpos by (intro mult_mono) simp_all
  also have "\<dots> = G / 2 ^ 30" by simp
  finally have "4 * K * (T / 2 ^ 53 + 1 / 2 ^ 1075) \<le> G / 2 ^ 30" .
  with err have "\<bar>d - (\<Sum>(x, y)\<leftarrow>zip xs ys. x * y)\<bar> \<le> G / 2 ^ 30" by linarith
  with d show ?thesis by blast
qed

lemma sqrt_shrink:
  fixes a A c :: real
  assumes "A * c \<le> a" and "0 \<le> A" and "0 \<le> c" and "c \<le> 1"
  shows "sqrt A * c \<le> sqrt a"
proof -
  have "c * c \<le> c * 1" using assms(3,4) by (intro mult_left_mono) simp_all
  then have "A * (c * c) \<le> A * c" using assms(2) by (intro mult_left_mono) simp_all
  with assms(1) have "A * (c * c) \<le> a" by linarith
  then have "sqrt (A * (c * c)) \<le> sqrt a" by (rule real_sqrt_le_mono)
  moreover have "sqrt (A * (c * c)) = sqrt A * c"
    using assms(3) by (simp add: real_sqrt_mult)
  ultimately show ?thesis by simp
qed

lemma tolerance_numeric:
  "((1 + 1 / 2 ^ 30) / (1 - 1 / 2 ^ 30) ^ 2) * (1 + 1 / 2 ^ 53) + 1 / 2 ^ 60
     \<le> (1 + 1 / 2 ^ 28) * ((1 - 1 / 2 ^ 53) ^ 3 :: real)"
  by (simp add: power2_eq_square power3_eq_cube field_simps)

lemma sqrt_two_power_inverse: "sqrt (1 / 2 ^ 500) = 1 / 2 ^ 250"
  by (simp only: real_sqrt_divide sqrt_two_power real_sqrt_one)

lemma cosine_range_nonzero:
  fixes xs ys :: "real list"
  assumes ex: "\<forall>x\<in>set xs. \<bar>x\<bar> \<le> 2 ^ 250" and ey: "\<forall>y\<in>set ys. \<bar>y\<bar> \<le> 2 ^ 250"
      and len: "length xs = length ys" "length xs \<le> 2 ^ 20"
      and A: "1 / 2 ^ 500 \<le> (\<Sum>x\<leftarrow>xs. x * x)" and B: "1 / 2 ^ 500 \<le> (\<Sum>y\<leftarrow>ys. y * y)"
  shows "\<exists>q. cosineSimilarity (Some (map Fin xs)) (Some (map Fin ys)) = Fin q
           \<and> \<bar>q\<bar> \<le> 1 + 1 / 2 ^ 28"
proof -
  define c :: real where "c = 1 - 1 / 2 ^ 30"
  define r :: real where "r = (1 + 1 / 2 ^ 30) / c ^ 2"
  have c: "0 \<le> c" "c \<le> 1" "0 < c" "1 / 2 \<le> c" by (simp_all add: c_def)
  have norm: "\<exists>a. squaredNorm (map Fin zs) = Fin a \<and> (\<Sum>z\<leftarrow>zs. z * z) * c \<le> a
                 \<and> 1 / 2 ^ 502 \<le> a \<and> a \<le> 2 ^ 522"
    if ez: "\<forall>z\<in>set zs. \<bar>z\<bar> \<le> 2 ^ 250" and l: "length zs \<le> 2 ^ 20"
      and Z: "1 / 2 ^ 500 \<le> (\<Sum>z\<leftarrow>zs. z * z)" for zs :: "real list"
  proof -
    define S where "S = (\<Sum>z\<leftarrow>zs. z * z)"
    have T: "(\<Sum>(x, y)\<leftarrow>zip zs zs. \<bar>x * y\<bar>) \<le> S" by (simp add: sum_zip_self S_def)
    obtain a where a: "dotProduct (map Fin zs) (map Fin zs) = Fin a"
      and err: "\<bar>a - (\<Sum>(x, y)\<leftarrow>zip zs zs. x * y)\<bar> \<le> S / 2 ^ 30"
      using accumulated_error [OF ez ez refl l T Z [folded S_def]] by blast
    have err': "\<bar>a - S\<bar> \<le> S / 2 ^ 30" using err by (simp add: sum_zip_self S_def)
    have Spos: "0 \<le> S" unfolding S_def by (rule sum_squares_nonneg)
    have "S = (\<Sum>(x, y)\<leftarrow>zip zs zs. \<bar>x * y\<bar>)" by (simp add: sum_zip_self S_def)
    also have "\<dots> \<le> real (length (zip zs zs)) * (2 ^ 250 * 2 ^ 250)"
      using zip_elements [OF ez ez] by (rule abs_sum_list_bound)
    also have "\<dots> \<le> 2 ^ 20 * (2 ^ 250 * 2 ^ 250)"
    proof -
      have "real (length (zip zs zs)) \<le> 2 ^ 20" using l
        by (metis length_zip min.idem of_nat_le_iff of_nat_numeral of_nat_power)
      then show ?thesis by (intro mult_right_mono) simp_all
    qed
    also have "\<dots> = (2::real) ^ 520" by simp
    finally have Shi: "S \<le> 2 ^ 520" .
    have Sc: "S * c = S - S / 2 ^ 30" by (simp add: c_def algebra_simps)
    have lower: "S * c \<le> a" unfolding Sc using err' by linarith
    have upper: "a \<le> S + S / 2 ^ 30" using err' by linarith
    have "(1::real) / 2 ^ 502 \<le> (1 / 2 ^ 500) * (1 / 2)" by simp
    also have "\<dots> \<le> S * (1 / 2)" using Z [folded S_def] by (intro mult_right_mono) simp_all
    also have "\<dots> \<le> S * c" using Spos c(4) by (intro mult_left_mono) simp_all
    also have "\<dots> \<le> a" by (rule lower)
    finally have alo: "1 / 2 ^ 502 \<le> a" .
    have "S / 2 ^ 30 \<le> S" using Spos by (simp add: field_simps)
    with upper have "a \<le> 2 * S" by linarith
    also have "\<dots> \<le> 2 * 2 ^ 520" using Shi by simp
    also have "\<dots> \<le> (2::real) ^ 522" by simp
    finally have ahi: "a \<le> 2 ^ 522" .
    show ?thesis using a lower alo ahi unfolding dotProduct_self S_def by blast
  qed
  define SA where "SA = (\<Sum>x\<leftarrow>xs. x * x)"
  define SB where "SB = (\<Sum>y\<leftarrow>ys. y * y)"
  define G where "G = sqrt SA * sqrt SB"
  have leny: "length ys \<le> 2 ^ 20" using len by simp
  obtain a where a: "squaredNorm (map Fin xs) = Fin a" "SA * c \<le> a" "1 / 2 ^ 502 \<le> a" "a \<le> 2 ^ 522"
    using norm [OF ex len(2) A] unfolding SA_def by blast
  obtain b where b: "squaredNorm (map Fin ys) = Fin b" "SB * c \<le> b" "1 / 2 ^ 502 \<le> b" "b \<le> 2 ^ 522"
    using norm [OF ey leny B] unfolding SB_def by blast
  have SApos: "0 \<le> SA" and SBpos: "0 \<le> SB" by (simp_all add: SA_def SB_def sum_squares_nonneg)
  have "sqrt (1 / 2 ^ 500) \<le> sqrt SA" using A unfolding SA_def by (rule real_sqrt_le_mono)
  then have rA: "1 / 2 ^ 250 \<le> sqrt SA" by (simp only: sqrt_two_power_inverse)
  have "sqrt (1 / 2 ^ 500) \<le> sqrt SB" using B unfolding SB_def by (rule real_sqrt_le_mono)
  then have rB: "1 / 2 ^ 250 \<le> sqrt SB" by (simp only: sqrt_two_power_inverse)
  have "0 \<le> sqrt SA" using SApos by simp
  then have "(1 / 2 ^ 250) * (1 / 2 ^ 250) \<le> sqrt SA * sqrt SB"
    using rA rB by (intro mult_mono) simp_all
  then have Glo: "1 / 2 ^ 500 \<le> G" by (simp add: G_def power_add [symmetric])
  have Gpos: "0 \<le> G" using SApos SBpos by (simp add: G_def)
  have T: "(\<Sum>(x, y)\<leftarrow>zip xs ys. \<bar>x * y\<bar>) \<le> G"
    unfolding G_def SA_def SB_def using len(1) by (rule abs_dot_le_norms)
  obtain d where d: "dotProduct (map Fin xs) (map Fin ys) = Fin d"
    and err: "\<bar>d - (\<Sum>(x, y)\<leftarrow>zip xs ys. x * y)\<bar> \<le> G / 2 ^ 30"
    using accumulated_error [OF ex ey len T Glo] by blast
  have "\<bar>(\<Sum>(x, y)\<leftarrow>zip xs ys. x * y)\<bar> \<le> G"
    using abs_sum_list_le [of "zip xs ys"] T by linarith
  with err have "\<bar>d\<bar> \<le> G + G / 2 ^ 30" by linarith
  moreover have "G + G / 2 ^ 30 = G * (1 + 1 / 2 ^ 30)" by (simp add: algebra_simps)
  ultimately have dle: "\<bar>d\<bar> \<le> G * (1 + 1 / 2 ^ 30)" by simp
  have sa: "sqrt SA * c \<le> sqrt a" using a(2) SApos c(1,2) by (rule sqrt_shrink)
  have sb: "sqrt SB * c \<le> sqrt b" using b(2) SBpos c(1,2) by (rule sqrt_shrink)
  have "0 \<le> sqrt SB * c" using SBpos c(1) by simp
  moreover have "0 \<le> sqrt a" using a(3) by simp
  ultimately have "(sqrt SA * c) * (sqrt SB * c) \<le> sqrt a * sqrt b"
    using sa sb by (intro mult_mono) simp_all
  then have Gc: "G * c ^ 2 \<le> sqrt a * sqrt b"
    by (simp add: G_def power2_eq_square algebra_simps)
  have c2: "0 < c ^ 2" using c(3) by simp
  have rpos: "0 \<le> r" unfolding r_def using c2 by simp
  have "G * (1 + 1 / 2 ^ 30) = r * (G * c ^ 2)"
    unfolding r_def using c2 by (simp add: field_simps)
  also have "\<dots> \<le> r * (sqrt a * sqrt b)" using Gc rpos by (rule mult_left_mono)
  finally have "\<bar>d\<bar> \<le> r * (sqrt a * sqrt b)" using dle by linarith
  moreover have r2: "r \<le> 2" unfolding r_def c_def
    by (simp add: power2_eq_square field_simps)
  ultimately obtain q where q: "fdiv (Fin d) (fmul (fsqrt (Fin a)) (fsqrt (Fin b))) = Fin q"
    and qb: "\<bar>q\<bar> * (1 - 1 / 2 ^ 53) ^ 3 \<le> r * (1 + 1 / 2 ^ 53) + 1 / 2 ^ 1075"
    using quotient_stage [OF a(3,4) b(3,4)] by blast
  have "(1::real) / 2 ^ 1075 \<le> 1 / 2 ^ 60" by (simp add: field_simps)
  then have "r * (1 + 1 / 2 ^ 53) + 1 / 2 ^ 1075 \<le> r * (1 + 1 / 2 ^ 53) + 1 / 2 ^ 60" by simp
  also have "\<dots> \<le> (1 + 1 / 2 ^ 28) * (1 - 1 / 2 ^ 53) ^ 3"
    unfolding r_def c_def by (rule tolerance_numeric)
  finally have "\<bar>q\<bar> * (1 - 1 / 2 ^ 53) ^ 3 \<le> (1 + 1 / 2 ^ 28) * (1 - 1 / 2 ^ 53) ^ 3"
    using qb by linarith
  moreover have "(0::real) < (1 - 1 / 2 ^ 53) ^ 3" by simp
  ultimately have qle: "\<bar>q\<bar> \<le> 1 + 1 / 2 ^ 28" by (simp only: mult_le_cancel_right_pos)
  have a0: "a \<noteq> 0" and b0: "b \<noteq> 0"
  proof -
    have "(0::real) < 1 / 2 ^ 502" by simp
    with a(3) b(3) show "a \<noteq> 0" "b \<noteq> 0" by linarith+
  qed
  have "cosineSimilarity (Some (map Fin xs)) (Some (map Fin ys)) = Fin q"
    using len(1) a0 b0 by (simp add: cosineSimilarity_Some a(1) b(1) d q del: fdiv.simps fmul.simps fsqrt.simps)
  with qle show ?thesis by blast
qed

lemma cosine_range:
  fixes xs ys :: "real list"
  assumes lx: "length xs \<le> 2 ^ 20" and ly: "length ys \<le> 2 ^ 20"
      and ex: "\<forall>x\<in>set xs. x = 0 \<or> (1 / 2 ^ 250 \<le> \<bar>x\<bar> \<and> \<bar>x\<bar> \<le> 2 ^ 250)"
      and ey: "\<forall>y\<in>set ys. y = 0 \<or> (1 / 2 ^ 250 \<le> \<bar>y\<bar> \<and> \<bar>y\<bar> \<le> 2 ^ 250)"
  shows "\<exists>q. cosineSimilarity (Some (map Fin xs)) (Some (map Fin ys)) = Fin q
           \<and> \<bar>q\<bar> \<le> 1 + 1 / 2 ^ 28"
proof -
  have zero: "\<exists>q. cosineSimilarity (Some (map Fin xs)) (Some (map Fin ys)) = Fin q
           \<and> \<bar>q\<bar> \<le> 1 + 1 / 2 ^ 28"
    if "cosineSimilarity (Some (map Fin xs)) (Some (map Fin ys)) = Fin 0"
    using that by (intro exI [of _ 0]) simp
  have bound: "\<forall>z\<in>set zs. \<bar>z\<bar> \<le> 2 ^ 250"
    if "\<forall>z\<in>set zs. z = 0 \<or> (1 / 2 ^ 250 \<le> \<bar>z\<bar> \<and> \<bar>z\<bar> \<le> 2 ^ 250)" for zs :: "real list"
    using that by auto
  have large: "1 / 2 ^ 500 \<le> (\<Sum>z\<leftarrow>zs. z * z)"
    if ez: "\<forall>z\<in>set zs. z = 0 \<or> (1 / 2 ^ 250 \<le> \<bar>z\<bar> \<and> \<bar>z\<bar> \<le> 2 ^ 250)"
      and nz: "\<not> (\<forall>z\<in>set zs. z = 0)" for zs :: "real list"
  proof -
    from nz obtain z where z: "z \<in> set zs" "z \<noteq> 0" by blast
    with ez have zlo: "1 / 2 ^ 250 \<le> \<bar>z\<bar>" by blast
    have "(1::real) / 2 ^ 500 = (1 / 2 ^ 250) * (1 / 2 ^ 250)" by (simp add: power_add [symmetric])
    also have "\<dots> \<le> \<bar>z\<bar> * \<bar>z\<bar>" using zlo by (intro mult_mono) simp_all
    also have "\<dots> = z * z" by simp
    also have "\<dots> \<le> (\<Sum>z\<leftarrow>zs. z * z)" using z(1) by (rule square_le_sum_squares)
    finally show ?thesis .
  qed
  show ?thesis
  proof (cases "length xs = length ys")
    case False
    then have "cosineSimilarity (Some (map Fin xs)) (Some (map Fin ys)) = Fin 0"
      by (simp add: cosineSimilarity_def)
    then show ?thesis by (rule zero)
  next
    case len: True
    show ?thesis
    proof (cases "(\<forall>x\<in>set xs. x = 0) \<or> (\<forall>y\<in>set ys. y = 0)")
      case True
      then have "squaredNorm (map Fin xs) = Fin 0 \<or> squaredNorm (map Fin ys) = Fin 0"
        using squaredNorm_zero_vector [of "map Fin xs"] squaredNorm_zero_vector [of "map Fin ys"]
        by auto
      then have "cosineSimilarity (Some (map Fin xs)) (Some (map Fin ys)) = Fin 0"
        by (rule cosineSimilarity_zero_norm)
      then show ?thesis by (rule zero)
    next
      case False
      then have nx: "\<not> (\<forall>x\<in>set xs. x = 0)" and ny: "\<not> (\<forall>y\<in>set ys. y = 0)" by blast+
      show ?thesis
        using bound [OF ex] bound [OF ey] len lx large [OF ex nx] large [OF ey ny]
        by (rule cosine_range_nonzero)
    qed
  qed
qed



lemma safe_vectors_similarity:
  fixes xs ys :: "real list"
  assumes "length xs \<le> 2 ^ 20" and "length ys \<le> 2 ^ 20"
      and "\<forall>x\<in>set xs. x = 0 \<or> (1 / 2 ^ 250 \<le> \<bar>x\<bar> \<and> \<bar>x\<bar> \<le> 2 ^ 250)"
      and "\<forall>y\<in>set ys. y = 0 \<or> (1 / 2 ^ 250 \<le> \<bar>y\<bar> \<and> \<bar>y\<bar> \<le> 2 ^ 250)"
  shows "\<exists>s. cosineSimilarity (Some (map Fin xs)) (Some (map Fin ys)) = Fin s \<and> \<bar>s\<bar> \<le> 3 / 2"
proof -
  obtain q where q: "cosineSimilarity (Some (map Fin xs)) (Some (map Fin ys)) = Fin q"
      "\<bar>q\<bar> \<le> 1 + 1 / 2 ^ 28"
    using cosine_range [OF assms] by blast
  have "(1::real) + 1 / 2 ^ 28 \<le> 3 / 2" by simp
  with q(2) have "\<bar>q\<bar> \<le> 3 / 2" by linarith
  with q(1) show ?thesis by blast
qed

section \<open>Properties of the matcher\<close>

lemma directMatch_commute: "directMatch need asset = directMatch asset need"
  by (auto simp: directMatch_def)

lemma clusterMatch_commute: "clusterMatch need asset = clusterMatch asset need"
  by (simp add: clusterMatch_def Let_def conj_commute)

lemma matchesNeedAsset_rules:
  "matchesNeedAsset need asset
     = (directMatch need asset \<or> clusterMatch need asset \<or> patternMatch need asset)"
  by (simp add: matchesNeedAsset_def)

lemma patternMatch_directional:
  "patternMatch ''customers'' ''crm'' \<and> \<not> patternMatch ''crm'' ''customers''"
  by code_simp

text \<open>
  Claim C6. The direct-substring rule and the semantic-cluster rule of
  \<^verbatim>\<open>matchesNeedAsset\<close> each give the same truth value when need and asset are swapped,
  and so does the matcher restricted to these two rules. (The pattern rule is directional,
  see \<open>patternMatch_directional\<close>.)
\<close>

theorem direct_and_cluster_rules_commute:
  "directMatch need asset = directMatch asset need
   \<and> clusterMatch need asset = clusterMatch asset need
   \<and> (directMatch need asset \<or> clusterMatch need asset)
       = (directMatch asset need \<or> clusterMatch asset need)"
  using directMatch_commute [of need asset] clusterMatch_commute [of need asset] by simp

theorem direct_and_cluster_rules_commute_witness:
  "directMatch ''seo'' ''seo audits'' \<and> directMatch ''seo audits'' ''seo''
   \<and> clusterMatch ''seo'' ''branding'' \<and> clusterMatch ''branding'' ''seo''"
proof -
  have d: "directMatch ''seo'' ''seo audits''" by code_simp
  have c: "clusterMatch ''seo'' ''branding''" by code_simp
  show ?thesis
    using d c direct_and_cluster_rules_commute [of "''seo''" "''seo audits''"]
      direct_and_cluster_rules_commute [of "''seo''" "''branding''"]
    by simp
qed


section \<open>Properties of the scorer\<close>

lemma complementaryMatches_nonneg: "0 \<le> complementaryMatches member1 member2"
  by (simp add: complementaryMatches_def countMatches_def countConstraintMatches_def Let_def)

lemma researchPoints_ge: "p \<le> researchPoints r p"
  by (auto simp: researchPoints_def Let_def max_def)

lemma researchPoints_le: "p \<le> 20 \<Longrightarrow> researchPoints r p \<le> 20"
  by (auto simp: researchPoints_def Let_def max_def)

lemma complementaryPoints_research_ge:
  "complementaryPoints member1 member2 None \<le> complementaryPoints member1 member2 (Some r)"
  by (simp add: complementaryPoints_def Let_def researchPoints_ge)

lemma complementaryPoints_bounds:
  "0 \<le> complementaryPoints member1 member2 research
   \<and> complementaryPoints member1 member2 research \<le> 20"
proof -
  define k where "k = min (complementaryMatches member1 member2 * 4) maxComplementaryPoints"
  have k: "0 \<le> k" "k \<le> 20"
    using complementaryMatches_nonneg [of member1 member2]
    by (simp_all add: k_def maxComplementaryPoints_def)
  have unfold: "complementaryPoints member1 member2 research
                  = (case research of None \<Rightarrow> k | Some r \<Rightarrow> researchPoints r k)"
    unfolding complementaryPoints_def k_def Let_def by (rule refl)
  show ?thesis
  proof (cases research)
    case None
    then show ?thesis using k unfold by simp
  next
    case (Some r)
    have "k \<le> researchPoints r k" by (rule researchPoints_ge)
    moreover have "researchPoints r k \<le> 20" using k by (simp add: researchPoints_le)
    ultimately show ?thesis using Some k unfold by simp
  qed
qed

lemma marketPoints_bounds:
  "0 \<le> marketPoints member1 member2 \<and> marketPoints member1 member2 \<le> 15"
  by (simp add: marketPoints_def Let_def maxMarketPoints_def)

lemma locationPoints_bounds:
  "2 \<le> locationPoints member1 member2 \<and> locationPoints member1 member2 \<le> 5"
  by (simp add: locationPoints_def Let_def)

lemma industryPoints_nonneg: "0 \<le> industryPoints ind1 ind2"
  by (simp add: industryPoints_def Let_def)

lemma solutionPoints_nonneg: "0 \<le> solutionPoints current constraintLower assetList"
  by (simp add: solutionPoints_def Let_def)

lemma strategyPoints_bounds:
  "0 \<le> strategyPoints member1 member2 \<and> strategyPoints member1 member2 \<le> 10"
  by (simp add: strategyPoints_def Let_def maxStrategyPoints_def industryPoints_nonneg
        solutionPoints_nonneg)

lemma toDouble_nonneg:
  assumes "0 \<le> x" and "toDouble x = Fin r"
  shows "0 \<le> r"
proof (cases "x = 0")
  case True
  then show ?thesis using assms by (simp add: toDouble_def)
next
  case False
  have "0 \<le> x / ulpOf x" using assms(1) ulpOf_pos [of x] by simp
  then have "0 \<le> roundHalfEven (x / ulpOf x)"
    using roundHalfEven_ge [of 0 "x / ulpOf x"] by simp
  then have "0 \<le> real_of_int (roundHalfEven (x / ulpOf x)) * ulpOf x"
    using ulpOf_pos [of x] by simp
  moreover have "r = real_of_int (roundHalfEven (x / ulpOf x)) * ulpOf x"
    using assms(2) False by (simp add: toDouble_def Let_def split: if_splits)
  ultimately show ?thesis by simp
qed

lemma semanticPoints_numeric:
  assumes "\<bar>s\<bar> \<le> 3 / 2"
  shows "\<exists>k. semanticPoints (Fin s) = intNum k \<and> - 30 \<le> k \<and> k \<le> 30 \<and> (0 \<le> s \<longrightarrow> 0 \<le> k)"
proof -
  have "\<bar>s * 20\<bar> \<le> 32" using assms by (simp add: abs_mult)
  then obtain r where r: "toDouble (s * 20) = Fin r" and near: "\<bar>r - s * 20\<bar> \<le> 1 / 4"
    using toDouble_small [of "s * 20"] by blast
  define k where "k = \<lfloor>r + 1 / 2\<rfloor>"
  have sem: "semanticPoints (Fin s) = intNum k"
    by (simp add: semanticPoints_def maxSemanticPoints_def intNum_def r k_def)
  have "\<bar>s * 20\<bar> \<le> 30" using assms by (simp add: abs_mult)
  with near have lo: "- 30 - 1 / 4 \<le> r" and hi: "r \<le> 30 + 1 / 4" by linarith+
  have "real_of_int (- 30) \<le> r + 1 / 2" using lo by simp
  then have k1: "- 30 \<le> k" unfolding k_def by (simp only: le_floor_iff)
  have "r + 1 / 2 < real_of_int 31" using hi by simp
  then have "k < 31" unfolding k_def by (simp only: floor_less_iff)
  then have k2: "k \<le> 30" by simp
  have k3: "0 \<le> k" if "0 \<le> s"
  proof -
    have "0 \<le> s * 20" using that by simp
    then have "0 \<le> r" using r by (rule toDouble_nonneg)
    then have "real_of_int 0 \<le> r + 1 / 2" by simp
    then show ?thesis unfolding k_def by (simp only: le_floor_iff)
  qed
  show ?thesis using sem k1 k2 k3 by blast
qed

lemma fadd_six:
  assumes "\<bar>a\<bar> \<le> 100" "\<bar>b\<bar> \<le> 100" "\<bar>c\<bar> \<le> 100" "\<bar>d\<bar> \<le> 100" "\<bar>e\<bar> \<le> 100" "\<bar>f\<bar> \<le> 100"
  shows "fadd (fadd (fadd (fadd (fadd (fadd (Fin 0) (intNum a)) (intNum b)) (intNum c))
           (intNum d)) (intNum e)) (intNum f) = intNum (a + b + c + d + e + f)"
proof -
  have z: "Fin 0 = intNum 0" by (simp add: intNum_def)
  have small: "\<bar>k\<bar> \<le> 600 \<Longrightarrow> \<bar>k\<bar> < 2 ^ 53" for k :: int by simp
  have 1: "fadd (Fin 0) (intNum a) = intNum a"
    unfolding z using fadd_intNum [of 0 a] assms by simp
  have 2: "fadd (intNum a) (intNum b) = intNum (a + b)"
    using assms by (intro fadd_intNum small) simp
  have 3: "fadd (intNum (a + b)) (intNum c) = intNum (a + b + c)"
    using assms by (intro fadd_intNum small) simp
  have 4: "fadd (intNum (a + b + c)) (intNum d) = intNum (a + b + c + d)"
    using assms by (intro fadd_intNum small) simp
  have 5: "fadd (intNum (a + b + c + d)) (intNum e) = intNum (a + b + c + d + e)"
    using assms by (intro fadd_intNum small) simp
  have 6: "fadd (intNum (a + b + c + d + e)) (intNum f) = intNum (a + b + c + d + e + f)"
    using assms by (intro fadd_intNum small) simp
  show ?thesis by (simp only: 1 2 3 4 5 6)
qed

lemma numGe_intNum: "numGe (intNum a) (intNum b) = (b \<le> a)"
  by (auto simp: numGe_def intNum_def)

lemma calculateMatchScore_self:
  "member_id member1 = member_id member2 \<Longrightarrow>
   calculateMatchScore member1 member2 s r =
     \<lparr>score = Fin 0, breakdown = [], fullBreakdown = [],
      summary = \<lparr>earned = Fin 0, possible = 100, percentage = Fin 0, grade = ''N/A''\<rparr>\<rparr>"
  by (simp add: calculateMatchScore_def)

lemma score_other:
  "member_id member1 \<noteq> member_id member2 \<Longrightarrow>
   score (calculateMatchScore member1 member2 s r) =
     mathMin
       (fadd (fadd (fadd (fadd (fadd (fadd (Fin 0) (intNum universalPoints)) (semanticPoints s))
          (intNum (complementaryPoints member1 member2 r)))
          (intNum (marketPoints member1 member2)))
          (intNum (locationPoints member1 member2)))
          (intNum (strategyPoints member1 member2)))
       (intNum 100)"
  by (simp add: calculateMatchScore_def Let_def)

lemma breakdown_other:
  "member_id member1 \<noteq> member_id member2 \<Longrightarrow>
   map (\<lambda>c. (factor c, points c)) (breakdown (calculateMatchScore member1 member2 s r)) =
     [(''Universal Business Potential'', intNum universalPoints),
      (''Semantic Profile Similarity'', semanticPoints s),
      (''Complementary Value Exchange'', intNum (complementaryPoints member1 member2 r)),
      (''Market Alignment'', intNum (marketPoints member1 member2)),
      (''Geographic & Logistical Synergy'', intNum (locationPoints member1 member2)),
      (''Strategic Growth Opportunities'', intNum (strategyPoints member1 member2))]"
  by (simp add: calculateMatchScore_def Let_def)

lemma categorySum_other:
  "member_id member1 \<noteq> member_id member2 \<Longrightarrow>
   categorySum (breakdown (calculateMatchScore member1 member2 s r)) =
     fadd (fadd (fadd (fadd (fadd (fadd (Fin 0) (intNum universalPoints)) (semanticPoints s))
          (intNum (complementaryPoints member1 member2 r)))
          (intNum (marketPoints member1 member2)))
          (intNum (locationPoints member1 member2)))
          (intNum (strategyPoints member1 member2))"
  by (simp add: calculateMatchScore_def Let_def categorySum_def)

lemma score_is_capped_sum:
  "member_id member1 \<noteq> member_id member2 \<Longrightarrow>
   score (calculateMatchScore member1 member2 s r) =
     mathMin (categorySum (breakdown (calculateMatchScore member1 member2 s r))) (intNum 100)"
  by (simp add: score_other categorySum_other)

lemma complementary_category_other:
  "member_id member1 \<noteq> member_id member2 \<Longrightarrow>
   categoryPoints ''Complementary Value Exchange''
       (breakdown (calculateMatchScore member1 member2 s r))
     = intNum (complementaryPoints member1 member2 r)"
  by (simp add: calculateMatchScore_def Let_def categoryPoints_def)

lemma score_numeric:
  assumes ids: "member_id member1 \<noteq> member_id member2" and s: "\<bar>s\<bar> \<le> 3 / 2"
  shows "\<exists>k. semanticPoints (Fin s) = intNum k \<and> - 30 \<le> k \<and> k \<le> 30 \<and> (0 \<le> s \<longrightarrow> 0 \<le> k)
           \<and> categorySum (breakdown (calculateMatchScore member1 member2 (Fin s) r))
               = intNum (universalPoints + k + complementaryPoints member1 member2 r
                         + marketPoints member1 member2 + locationPoints member1 member2
                         + strategyPoints member1 member2)
           \<and> score (calculateMatchScore member1 member2 (Fin s) r)
               = intNum (min (universalPoints + k + complementaryPoints member1 member2 r
                              + marketPoints member1 member2 + locationPoints member1 member2
                              + strategyPoints member1 member2) 100)"
proof -
  obtain k where k: "semanticPoints (Fin s) = intNum k" "- 30 \<le> k" "k \<le> 30" "0 \<le> s \<longrightarrow> 0 \<le> k"
    using semanticPoints_numeric [OF s] by blast
  note b = complementaryPoints_bounds [of member1 member2 r]
    marketPoints_bounds [of member1 member2]
    locationPoints_bounds [of member1 member2]
    strategyPoints_bounds [of member1 member2]
  have sum: "fadd (fadd (fadd (fadd (fadd (fadd (Fin 0) (intNum universalPoints)) (intNum k))
          (intNum (complementaryPoints member1 member2 r)))
          (intNum (marketPoints member1 member2)))
          (intNum (locationPoints member1 member2)))
          (intNum (strategyPoints member1 member2))
        = intNum (universalPoints + k + complementaryPoints member1 member2 r
                         + marketPoints member1 member2 + locationPoints member1 member2
                         + strategyPoints member1 member2)"
    using k(2,3) b by (intro fadd_six) (simp_all add: universalPoints_def)
  have 1: "categorySum (breakdown (calculateMatchScore member1 member2 (Fin s) r))
               = intNum (universalPoints + k + complementaryPoints member1 member2 r
                         + marketPoints member1 member2 + locationPoints member1 member2
                         + strategyPoints member1 member2)"
    by (simp only: categorySum_other [OF ids] k(1) sum)
  have 2: "score (calculateMatchScore member1 member2 (Fin s) r)
               = intNum (min (universalPoints + k + complementaryPoints member1 member2 r
                              + marketPoints member1 member2 + locationPoints member1 member2
                              + strategyPoints member1 member2) 100)"
    by (simp only: score_is_capped_sum [OF ids] 1 mathMin_intNum)
  show ?thesis using k 1 2 by blast
qed

lemma score_bounds:
  assumes ids: "member_id member1 \<noteq> member_id member2" and s: "\<bar>s\<bar> \<le> 3 / 2"
  shows "\<exists>n. score (calculateMatchScore member1 member2 (Fin s) r) = intNum n \<and> 2 \<le> n \<and> n \<le> 100
           \<and> (0 \<le> s \<longrightarrow> universalPoints \<le> n)"
proof -
  obtain k where k: "- 30 \<le> k" "k \<le> 30" "0 \<le> s \<longrightarrow> 0 \<le> k"
    and sc: "score (calculateMatchScore member1 member2 (Fin s) r)
               = intNum (min (universalPoints + k + complementaryPoints member1 member2 r
                              + marketPoints member1 member2 + locationPoints member1 member2
                              + strategyPoints member1 member2) 100)"
    using score_numeric [OF ids s, of r] by blast
  note b = complementaryPoints_bounds [of member1 member2 r]
    marketPoints_bounds [of member1 member2]
    locationPoints_bounds [of member1 member2]
    strategyPoints_bounds [of member1 member2]
  define n where "n = min (universalPoints + k + complementaryPoints member1 member2 r
                              + marketPoints member1 member2 + locationPoints member1 member2
                              + strategyPoints member1 member2) 100"
  have "2 \<le> n" "n \<le> 100" "0 \<le> s \<longrightarrow> universalPoints \<le> n"
    using k b by (simp_all add: n_def universalPoints_def)
  then show ?thesis using sc [folded n_def] by blast
qed


lemma score_ge_baseline:
  assumes "member_id member1 \<noteq> member_id member2" and "0 \<le> s" and "s \<le> 3 / 2"
  shows "numGe (score (calculateMatchScore member1 member2 (Fin s) r)) (intNum universalPoints)"
proof -
  have "\<bar>s\<bar> \<le> 3 / 2" using assms(2,3) by simp
  then obtain n where "score (calculateMatchScore member1 member2 (Fin s) r) = intNum n"
      "0 \<le> s \<longrightarrow> universalPoints \<le> n"
    using score_bounds [OF assms(1), of s r] by blast
  then show ?thesis using assms(2) by (simp add: numGe_intNum)
qed

lemma score_is_clamped_sum:
  assumes "member_id member1 \<noteq> member_id member2" and "\<bar>s\<bar> \<le> 3 / 2"
  shows "\<exists>n. categorySum (breakdown (calculateMatchScore member1 member2 (Fin s) r)) = intNum n
           \<and> score (calculateMatchScore member1 member2 (Fin s) r) = intNum (max 0 (min n 100))"
proof -
  obtain k where k: "- 30 \<le> k"
    and sm: "categorySum (breakdown (calculateMatchScore member1 member2 (Fin s) r))
               = intNum (universalPoints + k + complementaryPoints member1 member2 r
                         + marketPoints member1 member2 + locationPoints member1 member2
                         + strategyPoints member1 member2)"
    and sc: "score (calculateMatchScore member1 member2 (Fin s) r)
               = intNum (min (universalPoints + k + complementaryPoints member1 member2 r
                              + marketPoints member1 member2 + locationPoints member1 member2
                              + strategyPoints member1 member2) 100)"
    using score_numeric [OF assms, of r] by blast
  note b = complementaryPoints_bounds [of member1 member2 r]
    marketPoints_bounds [of member1 member2]
    locationPoints_bounds [of member1 member2]
    strategyPoints_bounds [of member1 member2]
  define n where "n = universalPoints + k + complementaryPoints member1 member2 r
                         + marketPoints member1 member2 + locationPoints member1 member2
                         + strategyPoints member1 member2"
  have "0 \<le> min n 100" using k b by (simp add: n_def universalPoints_def)
  then have "max 0 (min n 100) = min n 100" by simp
  then show ?thesis using sm sc unfolding n_def [symmetric] by (intro exI [of _ n]) simp
qed

lemma blank_points:
  "complementaryPoints (blankProfile (Str ''a'')) (blankProfile (Str ''b'')) None = 0"
  "marketPoints (blankProfile (Str ''a'')) (blankProfile (Str ''b'')) = 0"
  "locationPoints (blankProfile (Str ''a'')) (blankProfile (Str ''b'')) = 2"
  "strategyPoints (blankProfile (Str ''a'')) (blankProfile (Str ''b'')) = 0"
  by code_simp+

lemma blank_ids: "member_id (blankProfile (Str ''a'')) \<noteq> member_id (blankProfile (Str ''b''))"
  by (simp add: blankProfile_def)

lemma cosineSimilarity_opposite: "cosineSimilarity (Some [Fin 1]) (Some [Fin (- 1)]) = Fin (- 1)"
  by (simp add: cosineSimilarity_Some squaredNorm_def dotProduct_def toDouble_one
        toDouble_minus_one)

lemma semanticPoints_minus_one: "semanticPoints (Fin (- 1)) = intNum (- 20)"
  using toDouble_int [of "- 20"]
  by (simp add: semanticPoints_def maxSemanticPoints_def intNum_def)

lemma score_opposite:
  "score (calculateMatchScore (blankProfile (Str ''a'')) (blankProfile (Str ''b'')) (Fin (- 1)) None)
     = Fin 12"
proof -
  have "fadd (fadd (fadd (fadd (fadd (fadd (Fin 0) (intNum 30)) (intNum (- 20))) (intNum 0))
           (intNum 0)) (intNum 2)) (intNum 0) = intNum (30 + (- 20) + 0 + 0 + 2 + 0)"
    by (rule fadd_six) simp_all
  then show ?thesis
    by (simp add: score_other [OF blank_ids] blank_points semanticPoints_minus_one
          universalPoints_def mathMin_intNum) (simp add: intNum_def)
qed

text \<open>
  Claim C2 at the stored vectors \<open>[1]\<close> and \<open>[-1]\<close>: their similarity is -1, the semantic
  category earns -20 points, and two distinct consenting blank profiles score 12, below
  the baseline of 30. (For a similarity from 0 to 1 the baseline is a floor, see
  \<open>score_ge_baseline\<close>.)
\<close>

theorem negative_similarity_breaks_baseline:
  "cosineSimilarity (Some [Fin 1]) (Some [Fin (- 1)]) = Fin (- 1)
   \<and> score (calculateMatchScore (blankProfile (Str ''a'')) (blankProfile (Str ''b''))
              (cosineSimilarity (Some [Fin 1]) (Some [Fin (- 1)])) None) = Fin 12
   \<and> \<not> numGe (score (calculateMatchScore (blankProfile (Str ''a'')) (blankProfile (Str ''b''))
              (cosineSimilarity (Some [Fin 1]) (Some [Fin (- 1)])) None)) (intNum universalPoints)"
  by (simp add: cosineSimilarity_opposite score_opposite universalPoints_def numGe_def intNum_def)

lemma semanticPoints_NaN: "semanticPoints NaN = NaN"
  by (simp add: semanticPoints_def)

lemma fadd_NaN_left: "fadd NaN b = NaN"
  by simp

lemma score_NaN:
  "member_id member1 \<noteq> member_id member2 \<Longrightarrow>
   score (calculateMatchScore member1 member2 NaN r) = NaN"
  by (simp add: score_other semanticPoints_NaN fadd_NaN_right mathMin_def)

lemma semantic_category_other:
  "member_id member1 \<noteq> member_id member2 \<Longrightarrow>
   categoryPoints ''Semantic Profile Similarity''
       (breakdown (calculateMatchScore member1 member2 s r))
     = semanticPoints s"
  by (simp add: calculateMatchScore_def Let_def categoryPoints_def)

text \<open>
  Claim C1 at two stored vectors \<open>hugeVector\<close>, one finite number whose square overflows:
  their similarity is \<^verbatim>\<open>NaN\<close>, the semantic category, which the code documents as 0 to
  20 points, earns \<^verbatim>\<open>NaN\<close> points, and the total of two distinct blank profiles is
  \<^verbatim>\<open>NaN\<close>, which is not in the interval from 0 to 100. (For a finite similarity of
  magnitude at most 3/2 the total is the sum of the category points clamped to that
  interval, see \<open>score_is_clamped_sum\<close>; for every similarity it is
  \<^verbatim>\<open>Math.min\<close> of the sum and 100, see \<open>score_is_capped_sum\<close>.)
\<close>

theorem overflowing_vectors_give_NaN_total:
  "cosineSimilarity (Some hugeVector) (Some hugeVector) = NaN
   \<and> categoryPoints ''Semantic Profile Similarity''
       (breakdown (calculateMatchScore (blankProfile (Str ''a'')) (blankProfile (Str ''b''))
              (cosineSimilarity (Some hugeVector) (Some hugeVector)) None)) = NaN
   \<and> score (calculateMatchScore (blankProfile (Str ''a'')) (blankProfile (Str ''b''))
              (cosineSimilarity (Some hugeVector) (Some hugeVector)) None) = NaN
   \<and> \<not> numBetween 0 100
         (score (calculateMatchScore (blankProfile (Str ''a'')) (blankProfile (Str ''b''))
              (cosineSimilarity (Some hugeVector) (Some hugeVector)) None))"
  by (simp only: cosineSimilarity_overflow score_NaN [OF blank_ids]
        semantic_category_other [OF blank_ids] semanticPoints_NaN numBetween.simps simp_thms)

text \<open>
  Claim C3. For every profile \<open>p\<close>, every similarity and every (possibly absent) research
  object, \<^verbatim>\<open>calculateMatchScore(p, p, similarity, research)\<close> has total score 0 and an
  empty breakdown.
\<close>

theorem selfpair_scores_zero:
  "score (calculateMatchScore p p s r) = Fin 0
   \<and> breakdown (calculateMatchScore p p s r) = []
   \<and> fullBreakdown (calculateMatchScore p p s r) = []"
  by (simp add: calculateMatchScore_self)

theorem selfpair_scores_zero_witness:
  "score (calculateMatchScore (blankProfile (Str ''m1'')) (blankProfile (Str ''m1'')) (Fin 1)
            (Some \<lparr>creative_collaboration_ideas = Some [''a'', ''b'', ''c'', ''d''],
                   value_rating = Str ''High''\<rparr>)) = Fin 0
   \<and> breakdown (calculateMatchScore (blankProfile (Str ''m1'')) (blankProfile (Str ''m1'')) (Fin 1)
            (Some \<lparr>creative_collaboration_ideas = Some [''a'', ''b'', ''c'', ''d''],
                   value_rating = Str ''High''\<rparr>)) = []"
  using selfpair_scores_zero [of "blankProfile (Str ''m1'')" "Fin 1"
      "Some \<lparr>creative_collaboration_ideas = Some [''a'', ''b'', ''c'', ''d''],
             value_rating = Str ''High''\<rparr>"]
  by simp

text \<open>
  Claim C10. The self-pair test reads only \<^verbatim>\<open>member_id\<close>: two profiles with equal
  \<^verbatim>\<open>member_id\<close>, also two different profiles that both lack one, get total score 0 and
  an empty breakdown; profiles with different \<^verbatim>\<open>member_id\<close> get a breakdown that is not
  empty.
\<close>

theorem equal_member_id_is_selfpair:
  "(member_id member1 = member_id member2 \<longrightarrow>
      score (calculateMatchScore member1 member2 s r) = Fin 0
      \<and> breakdown (calculateMatchScore member1 member2 s r) = [])
   \<and> (member_id member1 \<noteq> member_id member2 \<longrightarrow>
      breakdown (calculateMatchScore member1 member2 s r) \<noteq> [])"
  by (simp add: calculateMatchScore_def Let_def)

theorem equal_member_id_is_selfpair_witness:
  "blankProfile Undefined \<noteq> (blankProfile Undefined)\<lparr>name := Str ''Ann''\<rparr>
   \<and> member_id (blankProfile Undefined) = member_id ((blankProfile Undefined)\<lparr>name := Str ''Ann''\<rparr>)
   \<and> score (calculateMatchScore (blankProfile Undefined)
              ((blankProfile Undefined)\<lparr>name := Str ''Ann''\<rparr>) (Fin 1) None) = Fin 0
   \<and> breakdown (calculateMatchScore (blankProfile Undefined)
              ((blankProfile Undefined)\<lparr>name := Str ''Ann''\<rparr>) (Fin 1) None) = []
   \<and> member_id (blankProfile (Str ''a'')) \<noteq> member_id (blankProfile (Str ''b''))
   \<and> breakdown (calculateMatchScore (blankProfile (Str ''a'')) (blankProfile (Str ''b'')) (Fin 1) None) \<noteq> []"
proof -
  have distinct: "blankProfile Undefined \<noteq> (blankProfile Undefined)\<lparr>name := Str ''Ann''\<rparr>"
  proof
    assume "blankProfile Undefined = (blankProfile Undefined)\<lparr>name := Str ''Ann''\<rparr>"
    then have "name (blankProfile Undefined)
                 = name ((blankProfile Undefined)\<lparr>name := Str ''Ann''\<rparr>)"
      by (rule arg_cong)
    then show False by (simp add: blankProfile_def)
  qed
  have same: "member_id (blankProfile Undefined)
                = member_id ((blankProfile Undefined)\<lparr>name := Str ''Ann''\<rparr>)"
    by simp
  have other: "member_id (blankProfile (Str ''a'')) \<noteq> member_id (blankProfile (Str ''b''))"
    by (simp add: blankProfile_def)
  have self: "score (calculateMatchScore (blankProfile Undefined)
                ((blankProfile Undefined)\<lparr>name := Str ''Ann''\<rparr>) (Fin 1) None) = Fin 0
              \<and> breakdown (calculateMatchScore (blankProfile Undefined)
                ((blankProfile Undefined)\<lparr>name := Str ''Ann''\<rparr>) (Fin 1) None) = []"
    using same equal_member_id_is_selfpair [of "blankProfile Undefined"
        "(blankProfile Undefined)\<lparr>name := Str ''Ann''\<rparr>" "Fin 1" None]
    by blast
  have nonself: "breakdown (calculateMatchScore (blankProfile (Str ''a''))
                   (blankProfile (Str ''b'')) (Fin 1) None) \<noteq> []"
    using other
      equal_member_id_is_selfpair [of "blankProfile (Str ''a'')" "blankProfile (Str ''b'')" "Fin 1" None]
    by blast
  show ?thesis using distinct same other self nonself by blast
qed

text \<open>
  Claim C7. For two non-self profiles and any similarity, the points of the category
  Complementary Value Exchange with a research object are at least the points without
  one.
\<close>

theorem research_never_lowers_complementary:
  "member_id member1 \<noteq> member_id member2 \<Longrightarrow>
   numGe (categoryPoints ''Complementary Value Exchange''
            (breakdown (calculateMatchScore member1 member2 s (Some r))))
         (categoryPoints ''Complementary Value Exchange''
            (breakdown (calculateMatchScore member1 member2 s None)))"
  by (simp add: complementary_category_other numGe_intNum complementaryPoints_research_ge)

lemma research_sets_points_example:
  "complementaryPoints (blankProfile (Str ''a'')) (blankProfile (Str ''b'')) None = 0
   \<and> complementaryPoints (blankProfile (Str ''a'')) (blankProfile (Str ''b''))
       (Some \<lparr>creative_collaboration_ideas = Some [''a'', ''b''], value_rating = Str ''low''\<rparr>) = 12"
  by code_simp

theorem research_never_lowers_complementary_witness:
  "member_id (blankProfile (Str ''a'')) \<noteq> member_id (blankProfile (Str ''b''))
   \<and> categoryPoints ''Complementary Value Exchange''
       (breakdown (calculateMatchScore (blankProfile (Str ''a'')) (blankProfile (Str ''b'')) (Fin 0) None))
       = Fin 0
   \<and> categoryPoints ''Complementary Value Exchange''
          (breakdown (calculateMatchScore (blankProfile (Str ''a'')) (blankProfile (Str ''b'')) (Fin 0)
             (Some \<lparr>creative_collaboration_ideas = Some [''a'', ''b''], value_rating = Str ''low''\<rparr>)))
       = Fin 12
   \<and> numGe (categoryPoints ''Complementary Value Exchange''
          (breakdown (calculateMatchScore (blankProfile (Str ''a'')) (blankProfile (Str ''b'')) (Fin 0)
             (Some \<lparr>creative_collaboration_ideas = Some [''a'', ''b''], value_rating = Str ''low''\<rparr>))))
        (categoryPoints ''Complementary Value Exchange''
          (breakdown (calculateMatchScore (blankProfile (Str ''a'')) (blankProfile (Str ''b'')) (Fin 0) None)))"
proof -
  have other: "member_id (blankProfile (Str ''a'')) \<noteq> member_id (blankProfile (Str ''b''))"
    by (simp add: blankProfile_def)
  have none: "categoryPoints ''Complementary Value Exchange''
       (breakdown (calculateMatchScore (blankProfile (Str ''a'')) (blankProfile (Str ''b'')) (Fin 0) None))
       = Fin 0"
    using research_sets_points_example by (simp add: complementary_category_other [OF other] intNum_def)
  have some: "categoryPoints ''Complementary Value Exchange''
          (breakdown (calculateMatchScore (blankProfile (Str ''a'')) (blankProfile (Str ''b'')) (Fin 0)
             (Some \<lparr>creative_collaboration_ideas = Some [''a'', ''b''], value_rating = Str ''low''\<rparr>)))
       = Fin 12"
    using research_sets_points_example by (simp add: complementary_category_other [OF other] intNum_def)
  show ?thesis
    using other none some research_never_lowers_complementary [OF other, of "Fin 0"
        "\<lparr>creative_collaboration_ideas = Some [''a'', ''b''], value_rating = Str ''low''\<rparr>"]
    by blast
qed

section \<open>Properties of the ranker\<close>













section \<open>Properties of the fallback rationale\<close>



lemma generateMatchRationale_any_failure:
  "generateMatchRationale (Inl e) stage2 synthesize member1 member2 found
     = generateSimpleRationale member1 member2"
  "generateMatchRationale (Inr i) (Inl e) synthesize member1 member2 found
     = generateSimpleRationale member1 member2"
  "generateMatchRationale (Inr i) (Inr c) synthesize member1 member2 None
     = generateSimpleRationale member1 member2"
  "synthesize i c = Inl e \<Longrightarrow>
   generateMatchRationale (Inr i) (Inr c) synthesize member1 member2 found
     = generateSimpleRationale member1 member2"
  "synthesize i c = Inr result \<Longrightarrow>
   \<not> truthy (answer_rationale_ops result) \<or> \<not> truthy (answer_creative_angle result)
     \<or> \<not> truthy (answer_intro_basis result) \<Longrightarrow>
   generateMatchRationale (Inr i) (Inr c) synthesize member1 member2 found
     = generateSimpleRationale member1 member2"
  by (simp_all add: generateMatchRationale_def split: option.splits)



end
